theory Spec2Isabelle
  imports Main
begin

section \<open>Calendar dates of the \<^verbatim>\<open>datetime\<close> library\<close>

text \<open>
  The module \<^verbatim>\<open>EDA_EDGAR_XBRL.py\<close> works on \<^verbatim>\<open>datetime.date\<close> and
  \<^verbatim>\<open>datetime.datetime\<close> values. A \<^verbatim>\<open>date\<close> is represented by its proleptic Gregorian
  ordinal (\<^verbatim>\<open>date.toordinal()\<close>): day 1 is 0001-01-01 (\<^verbatim>\<open>date.min\<close>) and day 3652059 is
  9999-12-31 (\<^verbatim>\<open>date.max\<close>). Arithmetic with a \<^verbatim>\<open>timedelta\<close> goes through the ordinal
  and raises \<^verbatim>\<open>OverflowError\<close> when the result leaves that range.
\<close>

datatype error = OverflowError | ValueError | TypeError | KeyError | UnicodeEncodeError

type_synonym date = int

definition MAXORDINAL :: int where
  "MAXORDINAL = 3652059"

definition valid_date :: "date \<Rightarrow> bool" where
  "valid_date d \<longleftrightarrow> 1 \<le> d \<and> d \<le> MAXORDINAL"

text \<open>\<^verbatim>\<open>date.weekday()\<close>: \<^verbatim>\<open>(self.toordinal() + 6) % 7\<close>, Monday is 0 and Sunday is 6.\<close>

definition weekday :: "date \<Rightarrow> int" where
  "weekday d = (d + 6) mod 7"

text \<open>\<^verbatim>\<open>date + timedelta(days=n)\<close>.\<close>

definition date_add_days :: "date \<Rightarrow> int \<Rightarrow> error + date" where
  "date_add_days d n =
     (let o' = d + n in if 0 < o' \<and> o' \<le> MAXORDINAL then Inr o' else Inl OverflowError)"

record time =
  hour :: nat
  minute :: nat
  second :: nat
  microsecond :: nat

record datetime =
  dt_date :: date
  dt_time :: time

text \<open>\<^verbatim>\<open>time(h, m)\<close>: seconds and microseconds default to 0.\<close>

definition mk_time :: "nat \<Rightarrow> nat \<Rightarrow> time" where
  "mk_time h m = \<lparr>hour = h, minute = m, second = 0, microsecond = 0\<rparr>"

text \<open>\<^verbatim>\<open>datetime.combine(date, time)\<close>: a naive timestamp (no \<^verbatim>\<open>tzinfo\<close> is attached).\<close>

definition combine :: "date \<Rightarrow> time \<Rightarrow> datetime" where
  "combine d t = \<lparr>dt_date = d, dt_time = t\<rparr>"

definition dt_weekday :: "datetime \<Rightarrow> int" where
  "dt_weekday dt = weekday (dt_date dt)"

text \<open>\<^verbatim>\<open>datetime + timedelta(days=n)\<close>: the time of day is kept.\<close>

definition datetime_add_days :: "datetime \<Rightarrow> int \<Rightarrow> error + datetime" where
  "datetime_add_days dt n =
     (let o' = dt_date dt + n
      in if 0 < o' \<and> o' \<le> MAXORDINAL then Inr (dt\<lparr>dt_date := o'\<rparr>) else Inl OverflowError)"

section \<open>Trading-calendar alignment\<close>

text \<open>
  \<^verbatim>\<open>
  def next_trading_day(date):
      date += timedelta(days=1)
      while date.weekday() >= 5:  # 5 is Saturday, 6 is Sunday
          date += timedelta(days=1)
      return date
  \<close>
  The loop is \<open>skip_weekend\<close>; it ends because a weekend lasts two days.
\<close>

function skip_weekend :: "date \<Rightarrow> error + date" where
  "skip_weekend d =
     (if weekday d \<ge> 5
      then (case date_add_days d 1 of Inl e \<Rightarrow> Inl e | Inr d' \<Rightarrow> skip_weekend d')
      else Inr d)"
  by pat_completeness auto
termination
proof (relation "measure (\<lambda>d. nat ((7 - weekday d) mod 7))")
  show "wf (measure (\<lambda>d. nat ((7 - weekday d) mod 7)))"
    by simp
next
  fix d d' :: date
  assume wd: "5 \<le> weekday d" and add: "date_add_days d 1 = Inr d'"
  from add have d': "d' = d + 1"
    by (simp add: date_add_days_def Let_def split: if_splits)
  from wd have "(7 - weekday (d + 1)) mod 7 < (7 - weekday d) mod 7"
    unfolding weekday_def by presburger
  with d' show "(d', d) \<in> measure (\<lambda>d. nat ((7 - weekday d) mod 7))"
    by (simp add: weekday_def)
qed

definition next_trading_day :: "date \<Rightarrow> error + date" where
  "next_trading_day d =
     (case date_add_days d 1 of Inl e \<Rightarrow> Inl e | Inr d' \<Rightarrow> skip_weekend d')"

text \<open>
  The same loop cut off after \<open>n\<close> executions of its body: \<open>None\<close> when the loop
  condition still holds after \<open>n\<close> rounds.
\<close>

fun skip_weekend_upto :: "nat \<Rightarrow> date \<Rightarrow> (error + date) option" where
  "skip_weekend_upto n d =
     (if weekday d \<ge> 5
      then (case n of 0 \<Rightarrow> None
            | Suc k \<Rightarrow> (case date_add_days d 1 of Inl e \<Rightarrow> Some (Inl e)
                        | Inr d' \<Rightarrow> skip_weekend_upto k d'))
      else Some (Inr d))"

text \<open>
  \<^verbatim>\<open>
  def shift_to_market_open(filing_date):
      market_open_time = time(9, 30)  # 9:30 AM
      market_open_datetime = datetime.combine(filing_date, market_open_time)
      if market_open_datetime.weekday() >= 5:  # 5 is Saturday, 6 is Sunday
          market_open_datetime = market_open_datetime + timedelta(days=7 - market_open_datetime.weekday())
      return market_open_datetime
  \<close>
\<close>

definition shift_to_market_open :: "date \<Rightarrow> error + datetime" where
  "shift_to_market_open filing_date =
     (let market_open_time = mk_time 9 30;
          market_open_datetime = combine filing_date market_open_time
      in if dt_weekday market_open_datetime \<ge> 5
         then datetime_add_days market_open_datetime (7 - dt_weekday market_open_datetime)
         else Inr market_open_datetime)"

section \<open>Strings\<close>

text \<open>
  A Python \<^verbatim>\<open>str\<close> is the list of its code points, so that a string read by
  \<^verbatim>\<open>json.load\<close> may hold any of them, a lone surrogate included. The string literals of
  the module are ASCII; \<open>py_str\<close> turns such a literal into its code points.
\<close>

type_synonym codepoint = int

type_synonym pystr = "codepoint list"

definition py_str :: "string \<Rightarrow> pystr" where
  "py_str s = map of_char s"

definition is_surrogate :: "codepoint \<Rightarrow> bool" where
  "is_surrogate c \<longleftrightarrow> 55296 \<le> c \<and> c \<le> 57343"

section \<open>Parsing \<^verbatim>\<open>datetime.strptime(s, '%Y-%m-%d')\<close>\<close>

text \<open>
  The library call is modelled after CPython's \<^verbatim>\<open>Lib/_strptime.py\<close> and
  \<^verbatim>\<open>Lib/_pydatetime.py\<close>. The format is compiled to the regular expression
  \<^verbatim>\<open>(?P<Y>\d\d\d\d)-(?P<m>1[0-2]|0[1-9]|[1-9])-(?P<d>3[0-1]|[1-2]\d|0[1-9]|[1-9]| [1-9])\<close>,
  matched at the start of the string; text left over after the match, a year 0 and a day
  that the month does not have are all \<^verbatim>\<open>ValueError\<close>. In a \<^verbatim>\<open>str\<close> pattern \<^verbatim>\<open>\d\<close> matches
  every Unicode decimal digit, and \<^verbatim>\<open>int\<close> converts them all; the classes written with
  brackets match ASCII digits only. The decimal digits outside ASCII are a table of the
  interpreter's Unicode database, taken here as the parameter \<open>dec\<close>: \<open>dec c\<close> is the value
  of the code point \<open>c\<close> when it is such a digit. Each group yields its candidate matches in
  the order the alternatives are tried, as (value, remaining text).
\<close>

definition is_ascii_digit :: "codepoint \<Rightarrow> bool" where
  "is_ascii_digit c \<longleftrightarrow> c \<in> set (py_str ''0123456789'')"

definition is_digit :: "(codepoint \<Rightarrow> int option) \<Rightarrow> codepoint \<Rightarrow> bool" where
  "is_digit dec c \<longleftrightarrow> is_ascii_digit c \<or> dec c \<noteq> None"

definition is_digit19 :: "codepoint \<Rightarrow> bool" where
  "is_digit19 c \<longleftrightarrow> c \<in> set (py_str ''123456789'')"

definition digit_val :: "(codepoint \<Rightarrow> int option) \<Rightarrow> codepoint \<Rightarrow> int" where
  "digit_val dec c =
     (if is_ascii_digit c then c - 48 else (case dec c of Some v \<Rightarrow> v | None \<Rightarrow> 0))"

fun match_lit :: "char \<Rightarrow> pystr \<Rightarrow> pystr list" where
  "match_lit c [] = []"
| "match_lit c (a # r) = (if a = of_char c then [r] else [])"

fun match_Y :: "(codepoint \<Rightarrow> int option) \<Rightarrow> pystr \<Rightarrow> (int \<times> pystr) list" where
  "match_Y dec (a # b # c # d # r) =
     (if is_digit dec a \<and> is_digit dec b \<and> is_digit dec c \<and> is_digit dec d
      then [(1000 * digit_val dec a + 100 * digit_val dec b + 10 * digit_val dec c
               + digit_val dec d, r)]
      else [])"
| "match_Y dec s = []"

text \<open>Two-character and one-character alternatives of the groups \<^verbatim>\<open>m\<close> and \<^verbatim>\<open>d\<close>.\<close>

fun alt2 :: "(codepoint \<Rightarrow> bool) \<Rightarrow> (codepoint \<Rightarrow> bool) \<Rightarrow> pystr \<Rightarrow> (pystr \<times> pystr) list" where
  "alt2 p q (a # b # r) = (if p a \<and> q b then [([a, b], r)] else [])"
| "alt2 p q s = []"

fun alt1 :: "(codepoint \<Rightarrow> bool) \<Rightarrow> pystr \<Rightarrow> (pystr \<times> pystr) list" where
  "alt1 p (a # r) = (if p a then [([a], r)] else [])"
| "alt1 p s = []"

text \<open>\<^verbatim>\<open>int(group)\<close> for the one or two characters a group has matched; a blank counts
  as nothing, as \<^verbatim>\<open>int(' 5')\<close> is 5.\<close>

fun group_int :: "(codepoint \<Rightarrow> int option) \<Rightarrow> pystr \<Rightarrow> int" where
  "group_int dec [a] = digit_val dec a"
| "group_int dec [a, b] =
     (if a = of_char CHR '' '' then digit_val dec b
      else 10 * digit_val dec a + digit_val dec b)"
| "group_int dec s = 0"

definition match_m :: "(codepoint \<Rightarrow> int option) \<Rightarrow> pystr \<Rightarrow> (int \<times> pystr) list" where
  "match_m dec s = map (\<lambda>(g, r). (group_int dec g, r))
     (alt2 (\<lambda>c. c = of_char CHR ''1'') (\<lambda>c. c \<in> set (py_str ''012'')) s
      @ alt2 (\<lambda>c. c = of_char CHR ''0'') is_digit19 s
      @ alt1 is_digit19 s)"

definition match_d :: "(codepoint \<Rightarrow> int option) \<Rightarrow> pystr \<Rightarrow> (int \<times> pystr) list" where
  "match_d dec s = map (\<lambda>(g, r). (group_int dec g, r))
     (alt2 (\<lambda>c. c = of_char CHR ''3'') (\<lambda>c. c \<in> set (py_str ''01'')) s
      @ alt2 (\<lambda>c. c \<in> set (py_str ''12'')) (is_digit dec) s
      @ alt2 (\<lambda>c. c = of_char CHR ''0'') is_digit19 s
      @ alt1 is_digit19 s
      @ alt2 (\<lambda>c. c = of_char CHR '' '') is_digit19 s)"

text \<open>All matches of the whole expression, in backtracking order:
  (year, month, day, unconverted rest). \<^verbatim>\<open>re.match\<close> returns the first.\<close>

definition regex_matches ::
  "(codepoint \<Rightarrow> int option) \<Rightarrow> pystr \<Rightarrow> (int \<times> int \<times> int \<times> pystr) list" where
  "regex_matches dec s =
     concat (map (\<lambda>(y, r1).
       concat (map (\<lambda>r2.
         concat (map (\<lambda>(m, r3).
           concat (map (\<lambda>r4.
             map (\<lambda>(d, r5). (y, m, d, r5)) (match_d dec r4))
           (match_lit CHR ''-'' r3)))
         (match_m dec r2)))
       (match_lit CHR ''-'' r1)))
     (match_Y dec s))"

definition is_leap :: "int \<Rightarrow> bool" where
  "is_leap year \<longleftrightarrow> year mod 4 = 0 \<and> (year mod 100 \<noteq> 0 \<or> year mod 400 = 0)"

definition DAYS_IN_MONTH :: "int list" where
  "DAYS_IN_MONTH = [-1, 31, 28, 31, 30, 31, 30, 31, 31, 30, 31, 30, 31]"

definition DAYS_BEFORE_MONTH :: "int list" where
  "DAYS_BEFORE_MONTH = [-1, 0, 31, 59, 90, 120, 151, 181, 212, 243, 273, 304, 334]"

definition days_before_year :: "int \<Rightarrow> int" where
  "days_before_year year =
     (let y = year - 1 in y * 365 + y div 4 - y div 100 + y div 400)"

definition days_in_month :: "int \<Rightarrow> int \<Rightarrow> int" where
  "days_in_month year month =
     (if month = 2 \<and> is_leap year then 29 else DAYS_IN_MONTH ! nat month)"

definition days_before_month :: "int \<Rightarrow> int \<Rightarrow> int" where
  "days_before_month year month =
     DAYS_BEFORE_MONTH ! nat month + (if month > 2 \<and> is_leap year then 1 else 0)"

definition ymd2ord :: "int \<Rightarrow> int \<Rightarrow> int \<Rightarrow> int" where
  "ymd2ord year month day = days_before_year year + days_before_month year month + day"

text \<open>The constructor \<^verbatim>\<open>date(year, month, day)\<close> with its range checks.\<close>

definition mk_date :: "int \<Rightarrow> int \<Rightarrow> int \<Rightarrow> error + date" where
  "mk_date year month day =
     (if \<not> (1 \<le> year \<and> year \<le> 9999) then Inl ValueError
      else if \<not> (1 \<le> month \<and> month \<le> 12) then Inl ValueError
      else if \<not> (1 \<le> day \<and> day \<le> days_in_month year month) then Inl ValueError
      else Inr (ymd2ord year month day))"

text \<open>\<^verbatim>\<open>datetime.strptime(s, '%Y-%m-%d')\<close> on a string: midnight of the parsed day.\<close>

definition strptime_ymd :: "(codepoint \<Rightarrow> int option) \<Rightarrow> pystr \<Rightarrow> error + datetime" where
  "strptime_ymd dec s =
     (case regex_matches dec s of
        [] \<Rightarrow> Inl ValueError
      | (y, m, d, rest) # _ \<Rightarrow>
          if rest \<noteq> [] then Inl ValueError
          else (case mk_date y m d of
                  Inl e \<Rightarrow> Inl e
                | Inr dd \<Rightarrow> Inr (combine dd (mk_time 0 0))))"

section \<open>Metric extraction\<close>

text \<open>
  A Python \<^verbatim>\<open>dict\<close> is an association list in insertion order (a \<^verbatim>\<open>dict\<close> has no
  key twice). \<^verbatim>\<open>k in d\<close> and \<^verbatim>\<open>d[k]\<close> are \<open>map_of d k\<close>, \<^verbatim>\<open>list(d.keys())\<close> is
  \<open>map fst d\<close>, \<^verbatim>\<open>dict(d)\<close> is a copy of the list, and \<^verbatim>\<open>d[k] = v\<close> is \<open>setitem\<close>: a key
  that is present keeps its place, a new key goes to the end.
\<close>

type_synonym ('k, 'v) dict = "('k \<times> 'v) list"

fun setitem :: "('k, 'v) dict \<Rightarrow> 'k \<Rightarrow> 'v \<Rightarrow> ('k, 'v) dict" where
  "setitem [] k v = [(k, v)]"
| "setitem ((k', v') # d) k v = (if k' = k then (k, v) # d else (k', v') # setitem d k v)"

text \<open>
  A value stored in a dictionary is a string, a \<^verbatim>\<open>datetime\<close> or anything else (a number,
  \<^verbatim>\<open>None\<close>, ...), which the extractor carries through without looking at it. A fact and
  an output row are dictionaries from field names to values; \<^verbatim>\<open>xbrl_data\<close> maps a
  namespace to a dictionary from metric keys to lists of facts.
\<close>

datatype 'a pyval = PStr pystr | PDatetime datetime | POther 'a

type_synonym 'a fact = "(pystr, 'a pyval) dict"

type_synonym 'a xbrl = "(pystr, (pystr, 'a fact list) dict) dict"

text \<open>
  The two lines that \<^verbatim>\<open>extract_metrics\<close> prints about a fact it skips: line 155,
  \<^verbatim>\<open>Could not parse date: {namespace_data.get('filed', ...)}. Error: {e}\<close>, whose text
  is fixed by the \<^verbatim>\<open>filed\<close> value, and line 157, \<^verbatim>\<open>Item missing 'filed': {namespace_data}\<close>,
  whose text is fixed by the fact.
\<close>

datatype 'a report = Could_not_parse "'a pyval" | Item_missing_filed "'a fact"

text \<open>
  What the function takes from the interpreter it runs in: the decimal digits of the
  Unicode database outside ASCII, and what \<^verbatim>\<open>print\<close> does with a report. \<open>print_error\<close>
  is \<open>None\<close> when the line is written and \<open>Some e\<close> when \<^verbatim>\<open>print\<close> raises \<open>e\<close>, as it does
  with \<^verbatim>\<open>UnicodeEncodeError\<close> for a text that the encoding of \<^verbatim>\<open>sys.stdout\<close> cannot
  encode. Standard output is taken to be open and to encode ASCII, so the two status
  lines (lines 124 and 165), which are ASCII text around a number, never raise and are not
  part of the model. What is printed is not part of a result either: a result is the
  returned list or the exception raised.
\<close>

record 'a env =
  decimal_digit :: "codepoint \<Rightarrow> int option"
  print_error :: "'a report \<Rightarrow> error option"

text \<open>The module-level flag that decides whether a metric missing from a namespace
  leaves a placeholder row. The other flags are \<^verbatim>\<open>False\<close> too and guard prints only.\<close>

definition print_metrics :: bool where
  "print_metrics = False"

text \<open>\<^verbatim>\<open>datetime.strptime(x, '%Y-%m-%d')\<close> on any value: an argument that is not a
  string is a \<^verbatim>\<open>TypeError\<close>.\<close>

definition strptime :: "'a env \<Rightarrow> 'a pyval \<Rightarrow> error + datetime" where
  "strptime env v =
     (case v of PStr s \<Rightarrow> strptime_ymd (decimal_digit env) s | _ \<Rightarrow> Inl TypeError)"

text \<open>
  The body of the \<^verbatim>\<open>try\<close> block (lines 141 to 151): parse, shift, copy the fact, set
  three keys, append to \<^verbatim>\<open>metrics_data\<close>.
\<close>

definition try_block ::
  "'a env \<Rightarrow> pystr \<Rightarrow> pystr \<Rightarrow> 'a fact \<Rightarrow> 'a pyval \<Rightarrow> 'a fact list
     \<Rightarrow> error + 'a fact list" where
  "try_block env metric namespace namespace_data filed metrics_data =
     (case strptime env filed of
        Inl e \<Rightarrow> Inl e
      | Inr parsed \<Rightarrow>
          (let filing_date = dt_date parsed in
           case shift_to_market_open filing_date of
             Inl e \<Rightarrow> Inl e
           | Inr market_day \<Rightarrow>
               (let row = namespace_data;
                    row = setitem row (py_str ''market_day'') (PDatetime market_day);
                    row = setitem row (py_str ''namespace'') (PStr namespace);
                    row = setitem row (py_str ''content'') (PStr metric)
                in Inr (metrics_data @ [row]))))"

text \<open>
  One round of the innermost loop (lines 136 to 157). \<^verbatim>\<open>except ValueError\<close> catches
  that error of the \<^verbatim>\<open>try\<close> body and nothing else; its handler prints the report of
  line 155, and the \<^verbatim>\<open>else\<close> branch prints the report of line 157. An exception of
  either \<^verbatim>\<open>print\<close> is raised outside the \<^verbatim>\<open>try\<close> body and leaves the function.
\<close>

definition process_fact ::
  "'a env \<Rightarrow> pystr \<Rightarrow> pystr \<Rightarrow> 'a fact \<Rightarrow> 'a fact list \<Rightarrow> error + 'a fact list" where
  "process_fact env metric namespace namespace_data metrics_data =
     (case map_of namespace_data (py_str ''filed'') of
        Some filed \<Rightarrow>
          (case try_block env metric namespace namespace_data filed metrics_data of
             Inl ValueError \<Rightarrow>
               (case print_error env (Could_not_parse filed) of
                  Some e \<Rightarrow> Inl e
                | None \<Rightarrow> Inr metrics_data)
           | Inl e \<Rightarrow> Inl e
           | Inr metrics_data' \<Rightarrow> Inr metrics_data')
      | None \<Rightarrow>
          (case print_error env (Item_missing_filed namespace_data) of
             Some e \<Rightarrow> Inl e
           | None \<Rightarrow> Inr metrics_data))"

text \<open>\<^verbatim>\<open>for namespace_data in xbrl_data[namespace][metric]\<close>.\<close>

fun facts_loop ::
  "'a env \<Rightarrow> pystr \<Rightarrow> pystr \<Rightarrow> 'a fact list \<Rightarrow> 'a fact list \<Rightarrow> error + 'a fact list" where
  "facts_loop env metric namespace [] metrics_data = Inr metrics_data"
| "facts_loop env metric namespace (namespace_data # rest) metrics_data =
     (case process_fact env metric namespace namespace_data metrics_data of
        Inl e \<Rightarrow> Inl e
      | Inr metrics_data' \<Rightarrow> facts_loop env metric namespace rest metrics_data')"

text \<open>One round of the namespace loop (lines 130 to 163).\<close>

definition process_namespace ::
  "'a env \<Rightarrow> 'a xbrl \<Rightarrow> pystr \<Rightarrow> pystr \<Rightarrow> 'a fact list \<Rightarrow> error + 'a fact list" where
  "process_namespace env xbrl_data metric namespace metrics_data =
     (case map_of xbrl_data namespace of
        None \<Rightarrow> Inl KeyError
      | Some metrics \<Rightarrow>
          (case map_of metrics metric of
             Some facts \<Rightarrow> facts_loop env metric namespace facts metrics_data
           | None \<Rightarrow>
               if print_metrics
               then (let row = []; row = setitem row (py_str ''content'') (PStr metric)
                     in Inr (metrics_data @ [row]))
               else Inr metrics_data))"

text \<open>\<^verbatim>\<open>for namespace in list(xbrl_data.keys())\<close>.\<close>

fun namespaces_loop ::
  "'a env \<Rightarrow> 'a xbrl \<Rightarrow> pystr \<Rightarrow> pystr list \<Rightarrow> 'a fact list \<Rightarrow> error + 'a fact list" where
  "namespaces_loop env xbrl_data metric [] metrics_data = Inr metrics_data"
| "namespaces_loop env xbrl_data metric (namespace # rest) metrics_data =
     (case process_namespace env xbrl_data metric namespace metrics_data of
        Inl e \<Rightarrow> Inl e
      | Inr metrics_data' \<Rightarrow> namespaces_loop env xbrl_data metric rest metrics_data')"

text \<open>\<^verbatim>\<open>for metric in metrics_list\<close>.\<close>

fun metrics_loop ::
  "'a env \<Rightarrow> 'a xbrl \<Rightarrow> pystr list \<Rightarrow> 'a fact list \<Rightarrow> error + 'a fact list" where
  "metrics_loop env xbrl_data [] metrics_data = Inr metrics_data"
| "metrics_loop env xbrl_data (metric # rest) metrics_data =
     (case namespaces_loop env xbrl_data metric (map fst xbrl_data) metrics_data of
        Inl e \<Rightarrow> Inl e
      | Inr metrics_data' \<Rightarrow> metrics_loop env xbrl_data rest metrics_data')"

definition extract_metrics :: "'a env \<Rightarrow> 'a xbrl \<Rightarrow> pystr list \<Rightarrow> error + 'a fact list" where
  "extract_metrics env xbrl_data metrics_list = metrics_loop env xbrl_data metrics_list []"

section \<open>What the specification expects of the extractor\<close>

text \<open>
  The filing date of a fact: present when the fact has a \<^verbatim>\<open>filed\<close> string that
  \<^verbatim>\<open>strptime\<close> accepts for \<^verbatim>\<open>%Y-%m-%d\<close>.
\<close>

definition parsed_filed :: "'a env \<Rightarrow> 'a fact \<Rightarrow> date option" where
  "parsed_filed env f =
     (case map_of f (py_str ''filed'') of
        Some (PStr s) \<Rightarrow>
          (case strptime_ymd (decimal_digit env) s of
             Inr p \<Rightarrow> Some (dt_date p)
           | Inl e \<Rightarrow> None)
      | _ \<Rightarrow> None)"

text \<open>The data model has \<^verbatim>\<open>filed\<close>, when present, as a string.\<close>

definition filed_is_str :: "'a fact \<Rightarrow> bool" where
  "filed_is_str f =
     (case map_of f (py_str ''filed'') of None \<Rightarrow> True | Some (PStr s) \<Rightarrow> True | Some _ \<Rightarrow> False)"

text \<open>The line printed about a fact that gets no row, and whether \<^verbatim>\<open>print\<close> writes it.\<close>

definition diagnostic :: "'a fact \<Rightarrow> 'a report" where
  "diagnostic f =
     (case map_of f (py_str ''filed'') of
        None \<Rightarrow> Item_missing_filed f
      | Some filed \<Rightarrow> Could_not_parse filed)"

definition diagnostic_printed :: "'a env \<Rightarrow> 'a fact \<Rightarrow> bool" where
  "diagnostic_printed env f \<longleftrightarrow> print_error env (diagnostic f) = None"


text \<open>The facts under \<^verbatim>\<open>xbrl_data[namespace][metric]\<close>; none when the namespace does
  not have the metric.\<close>

definition lookup_facts :: "'a xbrl \<Rightarrow> pystr \<Rightarrow> pystr \<Rightarrow> 'a fact list" where
  "lookup_facts xbrl_data namespace metric =
     (case map_of xbrl_data namespace of
        None \<Rightarrow> []
      | Some metrics \<Rightarrow> (case map_of metrics metric of None \<Rightarrow> [] | Some facts \<Rightarrow> facts))"

text \<open>The ExtractedRow of a (metric, namespace, fact) triple: the fact's fields with
  \<^verbatim>\<open>market_day\<close>, \<^verbatim>\<open>namespace\<close> and \<^verbatim>\<open>content\<close> set.\<close>

definition extracted_row :: "pystr \<Rightarrow> pystr \<Rightarrow> 'a fact \<Rightarrow> datetime \<Rightarrow> 'a fact" where
  "extracted_row metric namespace f market_day =
     setitem (setitem (setitem f (py_str ''market_day'') (PDatetime market_day))
                (py_str ''namespace'') (PStr namespace))
       (py_str ''content'') (PStr metric)"

text \<open>The rows expected of one triple: one when the filing date parses (and the shift
  to the market open yields a timestamp), none otherwise.\<close>

definition expected_row :: "'a env \<Rightarrow> pystr \<Rightarrow> pystr \<Rightarrow> 'a fact \<Rightarrow> 'a fact list" where
  "expected_row env metric namespace f =
     (case parsed_filed env f of
        None \<Rightarrow> []
      | Some d \<Rightarrow>
          (case shift_to_market_open d of
             Inl e \<Rightarrow> []
           | Inr market_day \<Rightarrow> [extracted_row metric namespace f market_day]))"

definition expected_rows :: "'a env \<Rightarrow> 'a xbrl \<Rightarrow> pystr list \<Rightarrow> 'a fact list" where
  "expected_rows env xbrl_data metrics_list =
     concat (map (\<lambda>metric.
       concat (map (\<lambda>namespace.
         concat (map (expected_row env metric namespace)
                   (lookup_facts xbrl_data namespace metric)))
       (map fst xbrl_data)))
     metrics_list)"


text \<open>Two results in sequence: the first error wins, otherwise the rows of the first
  come before the rows of the second. \<open>seq_rows\<close> does this for a list of results.\<close>

definition then_rows :: "error + 'a list \<Rightarrow> error + 'a list \<Rightarrow> error + 'a list" where
  "then_rows r1 r2 =
     (case r1 of
        Inl e \<Rightarrow> Inl e
      | Inr rows1 \<Rightarrow> (case r2 of Inl e \<Rightarrow> Inl e | Inr rows2 \<Rightarrow> Inr (rows1 @ rows2)))"

fun seq_rows :: "(error + 'a list) list \<Rightarrow> error + 'a list" where
  "seq_rows [] = Inr []"
| "seq_rows (r # rs) = then_rows r (seq_rows rs)"

text \<open>What one namespace and what one metric contribute, fact by fact.\<close>

definition namespace_result :: "'a env \<Rightarrow> 'a xbrl \<Rightarrow> pystr \<Rightarrow> pystr \<Rightarrow> error + 'a fact list" where
  "namespace_result env xbrl_data metric namespace =
     seq_rows (map (\<lambda>f. process_fact env metric namespace f [])
                 (lookup_facts xbrl_data namespace metric))"

definition metric_result :: "'a env \<Rightarrow> 'a xbrl \<Rightarrow> pystr \<Rightarrow> error + 'a fact list" where
  "metric_result env xbrl_data metric =
     seq_rows (map (namespace_result env xbrl_data metric) (map fst xbrl_data))"

section \<open>Examples\<close>

text \<open>An interpreter whose standard output is UTF-8 with strict error handling: a
  \<^verbatim>\<open>filed\<close> string with a surrogate code point cannot be printed, and the \<^verbatim>\<open>repr\<close> of a
  fact always can, since \<^verbatim>\<open>repr\<close> escapes surrogates. Of the decimal digits outside ASCII
  the table lists the Arabic-Indic ones (U+0660 to U+0669), which is all the examples
  use.\<close>

definition example_env :: "int env" where
  "example_env =
     \<lparr>decimal_digit = (\<lambda>c. if 1632 \<le> c \<and> c \<le> 1641 then Some (c - 1632) else None),
      print_error =
        (\<lambda>r. case r of
               Could_not_parse (PStr s) \<Rightarrow>
                 if list_ex is_surrogate s then Some UnicodeEncodeError else None
             | _ \<Rightarrow> None)\<rparr>"

text \<open>The example of the specification: one fact of \<^verbatim>\<open>us-gaap_NetIncomeLoss_USD\<close> in
  the namespace \<^verbatim>\<open>us-gaap\<close>, with the given \<^verbatim>\<open>filed\<close> string.\<close>

definition example_fact :: "pystr \<Rightarrow> int fact" where
  "example_fact filed =
     [(py_str ''val'', POther 100), (py_str ''filed'', PStr filed),
      (py_str ''form'', PStr (py_str ''10-K''))]"

definition example_xbrl :: "pystr \<Rightarrow> int fact list \<Rightarrow> int xbrl" where
  "example_xbrl metric facts = [(py_str ''us-gaap'', [(metric, facts)])]"

section \<open>The module's metric list\<close>

text \<open>
  \<^verbatim>\<open>top_25_metrics\<close> as Python reads it. Line 47 of the module has no comma after its
  string literal, so the literals of lines 47 and 48 are adjacent and are concatenated
  into one element.
\<close>

definition top_25_metrics :: "pystr list" where
  "top_25_metrics = map py_str
     [''us-gaap_RevenueFromContractWithCustomerExcludingAssessedTax_USD'',
      ''us-gaap_CostOfGoodsAndServicesSold_USD'',
      ''us-gaap_ResearchAndDevelopmentExpense_USD'' @ ''us-gaap_NetIncomeLoss_USD'',
      ''us-gaap_EarningsPerShareBasic_USD/shares'',
      ''us-gaap_EarningsPerShareDiluted_USD/shares'',
      ''us-gaap_OperatingIncomeLoss_USD'',
      ''us-gaap_GrossProfit_USD'',
      ''us-gaap_Assets_USD'',
      ''us-gaap_AssetsCurrent_USD'',
      ''us-gaap_LiabilitiesCurrent_USD'',
      ''us-gaap_StockholdersEquity_USD'',
      ''us-gaap_CashCashEquivalentsRestrictedCashAndRestrictedCashEquivalents_USD'',
      ''us-gaap_CashAndCashEquivalentsAtCarryingValue_USD'',
      ''us-gaap_CashCashEquivalentsRestrictedCashAndRestrictedCashEquivalentsPeriodIncreaseDecreaseIncludingExchangeRateEffect_USD'',
      ''us-gaap_NetCashProvidedByUsedInOperatingActivities_USD'',
      ''us-gaap_NetCashProvidedByUsedInInvestingActivities_USD'',
      ''us-gaap_NetCashProvidedByUsedInFinancingActivities_USD'',
      ''us-gaap_InterestExpense_USD'',
      ''us-gaap_LongTermDebt_USD'',
      ''us-gaap_DebtInstrumentCarryingAmount_USD'',
      ''us-gaap_AllocatedShareBasedCompensationExpense_USD'',
      ''us-gaap_ShareBasedCompensation_USD'',
      ''us-gaap_IncomeTaxExpenseBenefit_USD'',
      ''us-gaap_ResearchAndDevelopmentExpense_USD'',
      ''us-gaap_SellingGeneralAndAdministrativeExpense_USD'',
      ''us-gaap_InventoryNet_USD'']"

text \<open>\<^verbatim>\<open>extract_metrics_from_EDGAR_XBRL(ticker)\<close>, given what
  \<^verbatim>\<open>acquire_xbrl_data(ticker)\<close> has read from disk.\<close>

definition extract_metrics_from_EDGAR_XBRL :: "'a env \<Rightarrow> 'a xbrl \<Rightarrow> error + 'a fact list" where
  "extract_metrics_from_EDGAR_XBRL env xbrl_data =
     (let metrics_data = extract_metrics env xbrl_data top_25_metrics in metrics_data)"

section \<open>The extractor on dictionary objects\<close>

text \<open>
  To say that \<open>extract_metrics\<close> does not write to its input, the dictionaries of the
  facts and of the rows are objects in a store, and \<^verbatim>\<open>xbrl_data\<close> holds references to
  them. The store is the list of the dictionary objects, the address of an object is its
  index, and a new object goes to the end. The only writes of \<^verbatim>\<open>extract_metrics\<close> are the
  item assignments on \<^verbatim>\<open>row\<close> and the appends to its own list \<^verbatim>\<open>metrics_data\<close>, which is a
  list of references here. An exception leaves the store as it is at that point.
\<close>

type_synonym addr = nat

type_synonym 'a store = "'a fact list"

type_synonym xbrl_refs = "(pystr, (pystr, addr list) dict) dict"

text \<open>\<^verbatim>\<open>dict(d)\<close> and \<^verbatim>\<open>dict()\<close>: a new object.\<close>

definition dict_copy :: "'a store \<Rightarrow> addr \<Rightarrow> addr \<times> 'a store" where
  "dict_copy s d = (length s, s @ [s ! d])"

definition dict_new :: "'a store \<Rightarrow> addr \<times> 'a store" where
  "dict_new s = (length s, s @ [[]])"

text \<open>\<^verbatim>\<open>d[k] = v\<close> on the object at address \<open>d\<close>.\<close>

definition store_setitem :: "'a store \<Rightarrow> addr \<Rightarrow> pystr \<Rightarrow> 'a pyval \<Rightarrow> 'a store" where
  "store_setitem s d k v = s[d := setitem (s ! d) k v]"

definition try_block_st ::
  "'a env \<Rightarrow> pystr \<Rightarrow> pystr \<Rightarrow> addr \<Rightarrow> 'a pyval \<Rightarrow> addr list \<Rightarrow> 'a store
     \<Rightarrow> (error + addr list) \<times> 'a store" where
  "try_block_st env metric namespace namespace_data filed metrics_data s =
     (case strptime env filed of
        Inl e \<Rightarrow> (Inl e, s)
      | Inr parsed \<Rightarrow>
          (let filing_date = dt_date parsed in
           case shift_to_market_open filing_date of
             Inl e \<Rightarrow> (Inl e, s)
           | Inr market_day \<Rightarrow>
               (let (row, s) = dict_copy s namespace_data;
                    s = store_setitem s row (py_str ''market_day'') (PDatetime market_day);
                    s = store_setitem s row (py_str ''namespace'') (PStr namespace);
                    s = store_setitem s row (py_str ''content'') (PStr metric)
                in (Inr (metrics_data @ [row]), s))))"

definition process_fact_st ::
  "'a env \<Rightarrow> pystr \<Rightarrow> pystr \<Rightarrow> addr \<Rightarrow> addr list \<Rightarrow> 'a store
     \<Rightarrow> (error + addr list) \<times> 'a store" where
  "process_fact_st env metric namespace namespace_data metrics_data s =
     (case map_of (s ! namespace_data) (py_str ''filed'') of
        Some filed \<Rightarrow>
          (case try_block_st env metric namespace namespace_data filed metrics_data s of
             (Inl ValueError, s') \<Rightarrow>
               (case print_error env (Could_not_parse filed) of
                  Some e \<Rightarrow> (Inl e, s')
                | None \<Rightarrow> (Inr metrics_data, s'))
           | (Inl e, s') \<Rightarrow> (Inl e, s')
           | (Inr metrics_data', s') \<Rightarrow> (Inr metrics_data', s'))
      | None \<Rightarrow>
          (case print_error env (Item_missing_filed (s ! namespace_data)) of
             Some e \<Rightarrow> (Inl e, s)
           | None \<Rightarrow> (Inr metrics_data, s)))"

fun facts_loop_st ::
  "'a env \<Rightarrow> pystr \<Rightarrow> pystr \<Rightarrow> addr list \<Rightarrow> addr list \<Rightarrow> 'a store
     \<Rightarrow> (error + addr list) \<times> 'a store" where
  "facts_loop_st env metric namespace [] metrics_data s = (Inr metrics_data, s)"
| "facts_loop_st env metric namespace (namespace_data # rest) metrics_data s =
     (case process_fact_st env metric namespace namespace_data metrics_data s of
        (Inl e, s') \<Rightarrow> (Inl e, s')
      | (Inr metrics_data', s') \<Rightarrow> facts_loop_st env metric namespace rest metrics_data' s')"

definition process_namespace_st ::
  "'a env \<Rightarrow> xbrl_refs \<Rightarrow> pystr \<Rightarrow> pystr \<Rightarrow> addr list \<Rightarrow> 'a store
     \<Rightarrow> (error + addr list) \<times> 'a store" where
  "process_namespace_st env xbrl_data metric namespace metrics_data s =
     (case map_of xbrl_data namespace of
        None \<Rightarrow> (Inl KeyError, s)
      | Some metrics \<Rightarrow>
          (case map_of metrics metric of
             Some facts \<Rightarrow> facts_loop_st env metric namespace facts metrics_data s
           | None \<Rightarrow>
               if print_metrics
               then (let (row, s) = dict_new s;
                         s = store_setitem s row (py_str ''content'') (PStr metric)
                     in (Inr (metrics_data @ [row]), s))
               else (Inr metrics_data, s)))"

fun namespaces_loop_st ::
  "'a env \<Rightarrow> xbrl_refs \<Rightarrow> pystr \<Rightarrow> pystr list \<Rightarrow> addr list \<Rightarrow> 'a store
     \<Rightarrow> (error + addr list) \<times> 'a store" where
  "namespaces_loop_st env xbrl_data metric [] metrics_data s = (Inr metrics_data, s)"
| "namespaces_loop_st env xbrl_data metric (namespace # rest) metrics_data s =
     (case process_namespace_st env xbrl_data metric namespace metrics_data s of
        (Inl e, s') \<Rightarrow> (Inl e, s')
      | (Inr metrics_data', s') \<Rightarrow>
          namespaces_loop_st env xbrl_data metric rest metrics_data' s')"

fun metrics_loop_st ::
  "'a env \<Rightarrow> xbrl_refs \<Rightarrow> pystr list \<Rightarrow> addr list \<Rightarrow> 'a store
     \<Rightarrow> (error + addr list) \<times> 'a store" where
  "metrics_loop_st env xbrl_data [] metrics_data s = (Inr metrics_data, s)"
| "metrics_loop_st env xbrl_data (metric # rest) metrics_data s =
     (case namespaces_loop_st env xbrl_data metric (map fst xbrl_data) metrics_data s of
        (Inl e, s') \<Rightarrow> (Inl e, s')
      | (Inr metrics_data', s') \<Rightarrow> metrics_loop_st env xbrl_data rest metrics_data' s')"

definition extract_metrics_st ::
  "'a env \<Rightarrow> xbrl_refs \<Rightarrow> pystr list \<Rightarrow> 'a store \<Rightarrow> (error + addr list) \<times> 'a store" where
  "extract_metrics_st env xbrl_data metrics_list s =
     metrics_loop_st env xbrl_data metrics_list [] s"

text \<open>The value of \<^verbatim>\<open>xbrl_data\<close> in a store, and the rows a result refers to.\<close>

definition deref_xbrl :: "'a store \<Rightarrow> xbrl_refs \<Rightarrow> 'a xbrl" where
  "deref_xbrl s xbrl_data =
     map (\<lambda>(namespace, metrics).
            (namespace, map (\<lambda>(metric, facts). (metric, map (\<lambda>a. s ! a) facts)) metrics))
       xbrl_data"

definition rows_at :: "'a store \<Rightarrow> error + addr list \<Rightarrow> error + 'a fact list" where
  "rows_at s r = (case r of Inl e \<Rightarrow> Inl e | Inr rows \<Rightarrow> Inr (map (\<lambda>a. s ! a) rows))"

text \<open>Every reference of \<^verbatim>\<open>xbrl_data\<close> is an object of the store.\<close>

definition refs_in_store :: "xbrl_refs \<Rightarrow> 'a store \<Rightarrow> bool" where
  "refs_in_store xbrl_data s =
     list_all (\<lambda>(namespace, metrics).
                 list_all (\<lambda>(metric, facts). list_all (\<lambda>a. a < length s) facts) metrics)
       xbrl_data"

text \<open>The later store has every object of the earlier one, unchanged.\<close>

definition extends :: "'a store \<Rightarrow> 'a store \<Rightarrow> bool" where
  "extends s s' \<longleftrightarrow> take (length s) s' = s"

text \<open>A store with two facts, the second with a \<^verbatim>\<open>filed\<close> that does not parse, and an
  \<^verbatim>\<open>xbrl_data\<close> that refers to both.\<close>

definition example_store :: "int store" where
  "example_store = [example_fact (py_str ''2024-02-03''), example_fact (py_str ''not-a-date'')]"

definition example_refs :: xbrl_refs where
  "example_refs = [(py_str ''us-gaap'', [(py_str ''us-gaap_NetIncomeLoss_USD'', [0, 1])])]"

section \<open>Weekday arithmetic\<close>

declare skip_weekend.simps [simp del]

lemma weekday_range: "0 \<le> weekday d \<and> weekday d < 7"
  by (simp add: weekday_def)

lemma weekday_succ: "weekday (d + 1) = (if weekday d = 6 then 0 else weekday d + 1)"
proof -
  have "(d + 1 + 6) mod 7 = ((d + 6) mod 7 + 1) mod 7"
    by (simp add: mod_simps add.commute add.left_commute)
  moreover have "0 \<le> (d + 6) mod 7" "(d + 6) mod 7 < 7" by simp_all
  ultimately show ?thesis unfolding weekday_def by (auto simp: mod_pos_pos_trivial)
qed

lemma weekday_add: "weekday (d + k) = (weekday d + k) mod 7"
proof -
  have "d + k + 6 = (d + 6) + k" by simp
  then have "(d + k + 6) mod 7 = ((d + 6) mod 7 + k) mod 7"
    by (simp only: mod_add_left_eq)
  then show ?thesis by (simp only: weekday_def)
qed

lemma weekday_plus2: "weekday d = 5 \<Longrightarrow> weekday (d + 2) = 0"
  by (simp add: weekday_add)

lemma weekday_plus3: "weekday d = 4 \<Longrightarrow> weekday (d + 3) = 0"
  by (simp add: weekday_add)

lemma weekend_room:
  assumes "valid_date d" "weekday d \<ge> 5"
  shows "d + (7 - weekday d) \<le> MAXORDINAL" "0 < d + (7 - weekday d)"
proof -
  define q where "q = (d + 6) div 7"
  have eq: "d + 6 = 7 * q + weekday d"
    by (simp add: q_def weekday_def)
  have lt: "weekday d < 7" by (simp add: weekday_def)
  have le: "d \<le> 3652059" "1 \<le> d"
    using assms(1) by (simp_all add: valid_date_def MAXORDINAL_def)
  have "7 * q < 7 * 521723" using eq le assms(2) by linarith
  then have q: "q \<le> 521722" by simp
  show "d + (7 - weekday d) \<le> MAXORDINAL"
    unfolding MAXORDINAL_def using eq q by linarith
  show "0 < d + (7 - weekday d)" using lt le by linarith
qed

lemma shift_weekend_value:
  assumes "valid_date d" "weekday d \<ge> 5"
  shows "shift_to_market_open d = Inr (combine (d + (7 - weekday d)) (mk_time 9 30))"
  using assms(2) weekend_room [OF assms]
  by (simp add: shift_to_market_open_def Let_def dt_weekday_def combine_def
      datetime_add_days_def)

lemma shift_weekday_value:
  assumes "weekday d \<le> 4"
  shows "shift_to_market_open d = Inr (combine d (mk_time 9 30))"
  using assms by (simp add: shift_to_market_open_def Let_def dt_weekday_def combine_def)

lemma shift_total:
  assumes "valid_date d"
  shows "\<exists>market_day. shift_to_market_open d = Inr market_day"
proof (cases "weekday d \<ge> 5")
  case True
  then show ?thesis using shift_weekend_value [OF assms] by blast
next
  case False
  then show ?thesis using shift_weekday_value [of d] by simp
qed

lemma skip_weekend_weekday: "weekday d \<le> 4 \<Longrightarrow> skip_weekend d = Inr d"
  by (simp add: skip_weekend.simps)

lemma add_one_result: "date_add_days d 1 = Inr d' \<Longrightarrow> d' = d + 1"
  by (simp add: date_add_days_def Let_def split: if_splits)

lemma skip_weekend_sunday:
  assumes "weekday d = 6"
  shows "skip_weekend d = (case date_add_days d 1 of Inl e \<Rightarrow> Inl e | Inr d' \<Rightarrow> Inr d')"
proof (cases "date_add_days d 1")
  case (Inl e)
  then show ?thesis using assms by (subst skip_weekend.simps) simp
next
  case (Inr d')
  then have "weekday d' = 0" using assms add_one_result [OF Inr] by (simp add: weekday_succ)
  then have "skip_weekend d' = Inr d'" by (simp add: skip_weekend_weekday)
  then show ?thesis using assms Inr by (subst skip_weekend.simps) simp
qed

lemma skip_weekend_saturday:
  assumes "weekday d = 5"
  shows "skip_weekend d =
     (case date_add_days d 1 of Inl e \<Rightarrow> Inl e
      | Inr d' \<Rightarrow> (case date_add_days d' 1 of Inl e \<Rightarrow> Inl e | Inr d'' \<Rightarrow> Inr d''))"
proof (cases "date_add_days d 1")
  case (Inl e)
  then show ?thesis using assms by (subst skip_weekend.simps) simp
next
  case (Inr d')
  then have "weekday d' = 6" using assms add_one_result [OF Inr] by (simp add: weekday_succ)
  then have "skip_weekend d' = (case date_add_days d' 1 of Inl e \<Rightarrow> Inl e | Inr d'' \<Rightarrow> Inr d'')"
    by (rule skip_weekend_sunday)
  then show ?thesis using assms Inr by (subst skip_weekend.simps) simp
qed

lemma skip_weekend_two_rounds: "skip_weekend_upto 2 d = Some (skip_weekend d)"
proof -
  have two: "(2::nat) = Suc (Suc 0)" by simp
  consider "weekday d \<le> 4" | "weekday d = 5" | "weekday d = 6"
    using weekday_range [of d] by linarith
  then show ?thesis
  proof cases
    case 1
    then show ?thesis by (simp add: skip_weekend_weekday)
  next
    case 2
    show ?thesis
    proof (cases "date_add_days d 1")
      case (Inl e)
      then show ?thesis using 2 by (simp add: skip_weekend_saturday two)
    next
      case first: (Inr d')
      then have w': "weekday d' = 6" using 2 add_one_result [OF first] by (simp add: weekday_succ)
      show ?thesis
      proof (cases "date_add_days d' 1")
        case (Inl e)
        then show ?thesis using 2 first w' by (simp add: skip_weekend_saturday two)
      next
        case (Inr d'')
        then have "weekday d'' = 0" using w' add_one_result [OF Inr] by (simp add: weekday_succ)
        then show ?thesis using 2 first Inr w' by (simp add: skip_weekend_saturday two)
      qed
    qed
  next
    case 3
    show ?thesis
    proof (cases "date_add_days d 1")
      case (Inl e)
      then show ?thesis using 3 by (simp add: skip_weekend_sunday two)
    next
      case (Inr d')
      then have "weekday d' = 0" using 3 add_one_result [OF Inr] by (simp add: weekday_succ)
      then show ?thesis using 3 Inr by (simp add: skip_weekend_sunday two)
    qed
  qed
qed

lemma next_trading_day_value:
  assumes "valid_date d" "d \<noteq> MAXORDINAL"
  shows "next_trading_day d =
     Inr (if weekday d = 4 then d + 3 else if weekday d = 5 then d + 2 else d + 1)"
proof -
  have v: "valid_date (d + 1)" using assms by (simp add: valid_date_def)
  have p: "0 < d" using assms by (simp add: valid_date_def)
  have a: "date_add_days d 1 = Inr (d + 1)"
    using assms by (simp add: date_add_days_def valid_date_def)
  have ntd: "next_trading_day d = skip_weekend (d + 1)"
    by (simp add: next_trading_day_def a)
  consider "weekday d = 4" | "weekday d = 5" | "weekday d = 6" | "weekday d \<le> 3"
    using weekday_range [of d] by linarith
  then show ?thesis
  proof cases
    case 1
    then have w: "weekday (d + 1) = 5" by (simp add: weekday_succ)
    then have w5: "weekday (d + 1) \<ge> 5" by simp
    have r: "d + 1 + 2 \<le> MAXORDINAL" using weekend_room(1) [OF v w5] w by simp
    have "skip_weekend (d + 1) = Inr (d + 3)"
      using r p by (simp add: skip_weekend_saturday [OF w] date_add_days_def)
    then show ?thesis using 1 ntd by simp
  next
    case 2
    then have w: "weekday (d + 1) = 6" by (simp add: weekday_succ)
    then have w5: "weekday (d + 1) \<ge> 5" by simp
    have r: "d + 1 + 1 \<le> MAXORDINAL" using weekend_room(1) [OF v w5] w by simp
    have "skip_weekend (d + 1) = Inr (d + 2)"
      using r p by (simp add: skip_weekend_sunday [OF w] date_add_days_def)
    then show ?thesis using 2 ntd by simp
  next
    case 3
    then have w: "weekday (d + 1) = 0" by (simp add: weekday_succ)
    then show ?thesis using 3 ntd by (simp add: skip_weekend_weekday)
  next
    case 4
    then have w: "weekday (d + 1) \<le> 4" by (simp add: weekday_succ)
    then show ?thesis using 4 ntd by (simp add: skip_weekend_weekday)
  qed
qed

section \<open>Parsed dates lie in the calendar\<close>

lemma div_step:
  fixes n y :: int
  assumes n: "1 < n"
  shows "y div n = (y - 1) div n + (if y mod n = 0 then 1 else 0)"
proof -
  define q where "q = (y - 1) div n"
  define r where "r = (y - 1) mod n"
  have r: "0 \<le> r" "r < n" using n by (simp_all add: r_def)
  have "y - 1 = q * n + r" by (simp add: q_def r_def)
  then have y: "y = q * n + (r + 1)" by simp
  show ?thesis
  proof (cases "r + 1 = n")
    case True
    then have y': "y = (q + 1) * n" using y by (simp add: algebra_simps)
    have "y div n = q + 1" "y mod n = 0" using n unfolding y' by simp_all
    then show ?thesis by (simp add: q_def)
  next
    case False
    then have lt: "r + 1 < n" "0 \<le> r + 1" "r + 1 \<noteq> 0" using r by simp_all
    have "y div n = q + (r + 1) div n" unfolding y using n by (simp only: div_mult_self3)
    then have dq: "y div n = q" using lt by (simp add: div_pos_pos_trivial)
    have "y mod n = (r + 1) mod n" unfolding y by (simp only: mod_mult_self3)
    then have "y mod n = r + 1" using lt by (simp add: mod_pos_pos_trivial)
    then have "y mod n \<noteq> 0" using lt by simp
    then show ?thesis using dq by (simp add: q_def)
  qed
qed

lemma days_before_year_step:
  "days_before_year (y + 1) = days_before_year y + 365 + (if is_leap y then 1 else 0)"
proof -
  have d4: "y div 4 = (y - 1) div 4 + (if y mod 4 = 0 then 1 else 0)" by (rule div_step) simp
  have d100: "y div 100 = (y - 1) div 100 + (if y mod 100 = 0 then 1 else 0)" by (rule div_step) simp
  have d400: "y div 400 = (y - 1) div 400 + (if y mod 400 = 0 then 1 else 0)" by (rule div_step) simp
  have m1: "y mod 4 = 0" if "y mod 100 = 0"
  proof -
    from that have "(100::int) dvd y" by (simp only: mod_eq_0_iff_dvd)
    then have "(4::int) dvd y" by (rule dvd_trans [rotated]) simp
    then show ?thesis by (simp only: mod_eq_0_iff_dvd)
  qed
  have m2: "y mod 100 = 0" if "y mod 400 = 0"
  proof -
    from that have "(400::int) dvd y" by (simp only: mod_eq_0_iff_dvd)
    then have "(100::int) dvd y" by (rule dvd_trans [rotated]) simp
    then show ?thesis by (simp only: mod_eq_0_iff_dvd)
  qed
  have "days_before_year (y + 1) = y * 365 + y div 4 - y div 100 + y div 400"
    by (simp add: days_before_year_def)
  also have "\<dots> = days_before_year y + 365
      + ((if y mod 4 = 0 then 1 else 0) - (if y mod 100 = 0 then 1 else 0)
         + (if y mod 400 = 0 then 1 else 0))"
    unfolding days_before_year_def Let_def
    by (subst d4, subst d100, subst d400) (simp add: algebra_simps)
  finally have step: "days_before_year (y + 1) = days_before_year y + 365
      + ((if y mod 4 = 0 then 1 else 0) - (if y mod 100 = 0 then 1 else 0)
         + (if y mod 400 = 0 then 1 else 0))" .
  define A where "A \<longleftrightarrow> y mod 4 = 0"
  define B where "B \<longleftrightarrow> y mod 100 = 0"
  define C where "C \<longleftrightarrow> y mod 400 = 0"
  have imp: "B \<longrightarrow> A" "C \<longrightarrow> B" unfolding A_def B_def C_def using m1 m2 by blast+
  have leap: "is_leap y \<longleftrightarrow> A \<and> (\<not> B \<or> C)"
    by (simp only: is_leap_def A_def B_def C_def)
  have "(if A then 1 else 0) - (if B then 1 else 0) + (if C then 1 else 0)
      = (if A \<and> (\<not> B \<or> C) then 1 else (0::int))"
    using imp by (cases A; cases B; cases C) simp_all
  then show ?thesis
    unfolding step leap by (simp only: A_def B_def C_def)
qed

lemma days_before_year_mono:
  assumes "a \<le> b"
  shows "days_before_year a \<le> days_before_year b"
  using assms
proof (induction b rule: int_ge_induct)
  case base
  show ?case by simp
next
  case (step i)
  then show ?case by (simp add: days_before_year_step)
qed

lemma days_before_year_1: "days_before_year 1 = 0"
  by (simp add: days_before_year_def)

lemma days_before_year_10000: "days_before_year 10000 = 3652059"
  by (simp add: days_before_year_def)

lemma month_cases:
  assumes "1 \<le> (m::int)" "m \<le> 12"
  shows "m = 1 \<or> m = 2 \<or> m = 3 \<or> m = 4 \<or> m = 5 \<or> m = 6
       \<or> m = 7 \<or> m = 8 \<or> m = 9 \<or> m = 10 \<or> m = 11 \<or> m = 12"
  using assms by arith

lemma month_within_year:
  assumes "1 \<le> m" "m \<le> 12"
  shows "0 \<le> days_before_month y m
       \<and> days_before_month y m + days_in_month y m \<le> 365 + (if is_leap y then 1 else 0)"
  using month_cases [OF assms]
  by (auto simp: days_before_month_def days_in_month_def DAYS_BEFORE_MONTH_def
      DAYS_IN_MONTH_def)

lemma mk_date_valid:
  assumes "mk_date y m d = Inr dd"
  shows "valid_date dd"
proof -
  from assms have y: "1 \<le> y" "y \<le> 9999" and m: "1 \<le> m" "m \<le> 12"
    and d: "1 \<le> d" "d \<le> days_in_month y m" and dd: "dd = ymd2ord y m d"
    by (auto simp: mk_date_def split: if_splits)
  have lo: "0 \<le> days_before_year y"
    using days_before_year_mono [OF y(1)] by (simp add: days_before_year_1)
  have "y + 1 \<le> 10000" using y by simp
  then have hi: "days_before_year (y + 1) \<le> 3652059"
    using days_before_year_mono [of "y + 1" 10000] by (simp add: days_before_year_10000)
  have mm: "0 \<le> days_before_month y m"
    "days_before_month y m + days_in_month y m \<le> 365 + (if is_leap y then 1 else 0)"
    using month_within_year [OF m] by simp_all
  have "1 \<le> dd" using lo mm(1) d(1) by (simp add: dd ymd2ord_def)
  moreover have "dd \<le> days_before_year (y + 1)"
    using mm(2) d(2) by (simp add: dd ymd2ord_def days_before_year_step)
  ultimately show ?thesis using hi by (simp add: valid_date_def MAXORDINAL_def)
qed

lemma mk_date_error: "mk_date y m d = Inl e \<Longrightarrow> e = ValueError"
  by (auto simp: mk_date_def split: if_splits)

lemma strptime_ymd_error: "strptime_ymd dec s = Inl e \<Longrightarrow> e = ValueError"
  by (auto simp: strptime_ymd_def dest: mk_date_error split: list.splits if_splits sum.splits)

lemma strptime_ymd_valid:
  assumes "strptime_ymd dec s = Inr p"
  shows "valid_date (dt_date p)"
proof -
  from assms obtain y m d where "mk_date y m d = Inr (dt_date p)"
    by (auto simp: strptime_ymd_def combine_def split: list.splits if_splits sum.splits)
  then show ?thesis by (rule mk_date_valid)
qed



section \<open>Literals and results in sequence\<close>

lemma py_str_eq_iff [simp]: "py_str a = py_str b \<longleftrightarrow> a = b"
  unfolding py_str_def by (rule inj_map_eq_map) (rule inj_of_char)

lemma then_rows_Inl [simp]: "then_rows (Inl e) r = Inl e"
  by (simp add: then_rows_def)

lemma then_rows_Inr_Inr [simp]: "then_rows (Inr a) (Inr b) = Inr (a @ b)"
  by (simp add: then_rows_def)

lemma then_rows_Inr_Inl [simp]: "then_rows (Inr a) (Inl e) = Inl e"
  by (simp add: then_rows_def)

lemma then_rows_Nil_left [simp]: "then_rows (Inr []) r = r"
  by (cases r) simp_all

lemma then_rows_Nil_right [simp]: "then_rows r (Inr []) = r"
  by (cases r) simp_all

lemma then_rows_assoc: "then_rows (then_rows a b) c = then_rows a (then_rows b c)"
  by (cases a; cases b; cases c) simp_all

lemma then_rows_eq_Inr:
  "then_rows a b = Inr rows \<longleftrightarrow> (\<exists>x y. a = Inr x \<and> b = Inr y \<and> rows = x @ y)"
  by (cases a; cases b) auto

lemma seq_rows_append: "seq_rows (rs1 @ rs2) = then_rows (seq_rows rs1) (seq_rows rs2)"
  by (induction rs1) (simp_all add: then_rows_assoc)


lemma seq_rows_map_InrD:
  assumes "seq_rows (map f xs) = Inr rows"
    and "\<And>x a. x \<in> set xs \<Longrightarrow> f x = Inr a \<Longrightarrow> a = g x"
  shows "rows = concat (map g xs)"
  using assms
proof (induction xs arbitrary: rows)
  case Nil
  then show ?case by simp
next
  case (Cons x xs)
  from Cons.prems(1) obtain a b where a: "f x = Inr a" and b: "seq_rows (map f xs) = Inr b"
    and rows: "rows = a @ b"
    by (auto simp: then_rows_eq_Inr)
  have "a = g x" using Cons.prems(2) [of x a] a by simp
  moreover have "b = concat (map g xs)"
    using b Cons.prems(2) by (intro Cons.IH) auto
  ultimately show ?case using rows by simp
qed

section \<open>The loops run the facts in sequence\<close>

lemma expected_row_unparsed:
  "parsed_filed env f = None \<Longrightarrow> expected_row env metric namespace f = []"
  by (simp add: expected_row_def)

lemma process_fact_cases:
  "process_fact env metric namespace f acc =
     (if \<not> filed_is_str f then Inl TypeError
      else case parsed_filed env f of
             Some d \<Rightarrow> Inr (acc @ expected_row env metric namespace f)
           | None \<Rightarrow> (case print_error env (diagnostic f) of
                        Some e \<Rightarrow> Inl e
                      | None \<Rightarrow> Inr acc))"
proof (cases "map_of f (py_str ''filed'')")
  case None
  then show ?thesis
    by (simp add: process_fact_def filed_is_str_def parsed_filed_def diagnostic_def
        split: option.splits)
next
  case (Some v)
  show ?thesis
  proof (cases v)
    case (PStr s)
    show ?thesis
    proof (cases "strptime_ymd (decimal_digit env) s")
      case (Inl e)
      then have "e = ValueError" by (rule strptime_ymd_error)
      then show ?thesis
        using Some PStr Inl
        by (simp add: process_fact_def try_block_def strptime_def filed_is_str_def
            parsed_filed_def diagnostic_def split: option.splits)
    next
      case (Inr p)
      then have "valid_date (dt_date p)" by (rule strptime_ymd_valid)
      then obtain market_day where "shift_to_market_open (dt_date p) = Inr market_day"
        using shift_total by blast
      then show ?thesis
        using Some PStr Inr
        by (simp add: process_fact_def try_block_def strptime_def filed_is_str_def
            expected_row_def parsed_filed_def extracted_row_def Let_def)
    qed
  next
    case (PDatetime x)
    then show ?thesis
      using Some by (simp add: process_fact_def try_block_def strptime_def filed_is_str_def)
  next
    case (POther x)
    then show ?thesis
      using Some by (simp add: process_fact_def try_block_def strptime_def filed_is_str_def)
  qed
qed

lemma process_fact_acc:
  "process_fact env metric namespace f acc =
     then_rows (Inr acc) (process_fact env metric namespace f [])"
  by (simp add: process_fact_cases split: option.splits)


lemma process_fact_InrD:
  assumes "process_fact env metric namespace f [] = Inr rows"
  shows "rows = expected_row env metric namespace f"
  using assms
  by (auto simp: process_fact_cases expected_row_unparsed split: option.splits if_splits)

lemma facts_loop_seq:
  "facts_loop env metric namespace fs acc =
     then_rows (Inr acc) (seq_rows (map (\<lambda>f. process_fact env metric namespace f []) fs))"
proof (induction fs arbitrary: acc)
  case Nil
  show ?case by simp
next
  case (Cons f fs)
  show ?case
  proof (cases "process_fact env metric namespace f []")
    case (Inl e)
    then have "process_fact env metric namespace f acc = Inl e"
      using process_fact_acc [of env metric namespace f acc] by simp
    then show ?thesis using Inl by simp
  next
    case (Inr a)
    then have "process_fact env metric namespace f acc = Inr (acc @ a)"
      using process_fact_acc [of env metric namespace f acc] by simp
    then show ?thesis
      using Inr Cons.IH [of "acc @ a"]
      by (cases "seq_rows (map (\<lambda>f. process_fact env metric namespace f []) fs)") simp_all
  qed
qed

lemma process_namespace_seq:
  assumes "namespace \<in> fst ` set xbrl_data"
  shows "process_namespace env xbrl_data metric namespace acc =
     then_rows (Inr acc) (namespace_result env xbrl_data metric namespace)"
proof -
  from assms obtain metrics where m: "map_of xbrl_data namespace = Some metrics"
    by (cases "map_of xbrl_data namespace") (auto simp: map_of_eq_None_iff)
  show ?thesis
    by (cases "map_of metrics metric")
      (simp_all add: process_namespace_def namespace_result_def lookup_facts_def m
        print_metrics_def facts_loop_seq)
qed

lemma namespaces_loop_seq:
  assumes "set nss \<subseteq> fst ` set xbrl_data"
  shows "namespaces_loop env xbrl_data metric nss acc =
     then_rows (Inr acc) (seq_rows (map (namespace_result env xbrl_data metric) nss))"
  using assms
proof (induction nss arbitrary: acc)
  case Nil
  show ?case by simp
next
  case (Cons namespace nss)
  then have key: "namespace \<in> fst ` set xbrl_data" and rest: "set nss \<subseteq> fst ` set xbrl_data"
    by simp_all
  show ?case
  proof (cases "namespace_result env xbrl_data metric namespace")
    case (Inl e)
    then show ?thesis by (simp add: process_namespace_seq [OF key])
  next
    case (Inr a)
    then show ?thesis
      using Cons.IH [OF rest, of "acc @ a"]
      by (cases "seq_rows (map (namespace_result env xbrl_data metric) nss)")
        (simp_all add: process_namespace_seq [OF key])
  qed
qed

lemma metrics_loop_seq:
  "metrics_loop env xbrl_data ms acc =
     then_rows (Inr acc) (seq_rows (map (metric_result env xbrl_data) ms))"
proof (induction ms arbitrary: acc)
  case Nil
  show ?case by simp
next
  case (Cons metric ms)
  have keys: "set (map fst xbrl_data) \<subseteq> fst ` set xbrl_data" by simp
  have step: "namespaces_loop env xbrl_data metric (map fst xbrl_data) acc =
      then_rows (Inr acc) (metric_result env xbrl_data metric)"
    unfolding metric_result_def by (rule namespaces_loop_seq [OF keys])
  show ?case
  proof (cases "metric_result env xbrl_data metric")
    case (Inl e)
    then show ?thesis by (simp add: step)
  next
    case (Inr a)
    then show ?thesis
      using Cons.IH [of "acc @ a"]
      by (cases "seq_rows (map (metric_result env xbrl_data) ms)") (simp_all add: step)
  qed
qed

lemma extract_metrics_seq:
  "extract_metrics env xbrl_data ms = seq_rows (map (metric_result env xbrl_data) ms)"
  by (simp add: extract_metrics_def metrics_loop_seq)


lemma namespace_result_InrD:
  assumes "namespace_result env xbrl_data metric namespace = Inr rows"
  shows "rows = concat (map (expected_row env metric namespace)
                          (lookup_facts xbrl_data namespace metric))"
  using assms unfolding namespace_result_def
  by (rule seq_rows_map_InrD) (rule process_fact_InrD)


lemma metric_result_InrD:
  assumes "metric_result env xbrl_data metric = Inr rows"
  shows "rows = concat (map (\<lambda>namespace. concat (map (expected_row env metric namespace)
                    (lookup_facts xbrl_data namespace metric))) (map fst xbrl_data))"
  using assms unfolding metric_result_def
  by (rule seq_rows_map_InrD) (rule namespace_result_InrD)


lemma extract_metrics_InrD:
  assumes "extract_metrics env xbrl_data ms = Inr rows"
  shows "rows = expected_rows env xbrl_data ms"
  using assms unfolding extract_metrics_seq expected_rows_def
  by (rule seq_rows_map_InrD) (rule metric_result_InrD)

section \<open>Rows and their keys\<close>

lemma map_of_setitem: "map_of (setitem d k v) = (map_of d)(k \<mapsto> v)"
  by (induction d) (auto simp: fun_eq_iff)

lemma map_of_extracted_row:
  "map_of (extracted_row metric namespace f market_day) =
     (map_of f)((py_str ''market_day'') \<mapsto> PDatetime market_day,
                (py_str ''namespace'') \<mapsto> PStr namespace,
                (py_str ''content'') \<mapsto> PStr metric)"
  by (simp only: extracted_row_def map_of_setitem)

lemma extracted_row_keys:
  "map_of (extracted_row metric namespace f market_day) (py_str ''content'') = Some (PStr metric)"
  "map_of (extracted_row metric namespace f market_day) (py_str ''namespace'') = Some (PStr namespace)"
  "map_of (extracted_row metric namespace f market_day) (py_str ''filed'') = map_of f (py_str ''filed'')"
  by (simp_all add: map_of_extracted_row)


lemma expected_row_member:
  assumes "row \<in> set (expected_row env metric namespace f)"
  shows "\<exists>d market_day. parsed_filed env f = Some d \<and> row = extracted_row metric namespace f market_day"
proof (cases "parsed_filed env f")
  case None
  then show ?thesis using assms by (simp add: expected_row_def)
next
  case (Some d)
  then show ?thesis
    using assms by (cases "shift_to_market_open d") (auto simp: expected_row_def)
qed

lemma expected_rows_member:
  assumes "row \<in> set (expected_rows env xbrl_data ms)"
  shows "\<exists>metric namespace f. metric \<in> set ms \<and> namespace \<in> fst ` set xbrl_data
           \<and> f \<in> set (lookup_facts xbrl_data namespace metric)
           \<and> row \<in> set (expected_row env metric namespace f)"
  using assms unfolding expected_rows_def by auto

lemma expected_rows_append:
  "expected_rows env xbrl_data (ms1 @ ms2) = expected_rows env xbrl_data ms1 @ expected_rows env xbrl_data ms2"
  by (simp add: expected_rows_def)

lemma extract_metrics_append:
  "extract_metrics env xbrl_data (ms1 @ ms2) =
     then_rows (extract_metrics env xbrl_data ms1) (extract_metrics env xbrl_data ms2)"
  by (simp add: extract_metrics_seq seq_rows_append)

lemma extract_metrics_single:
  "extract_metrics env xbrl_data [metric] = metric_result env xbrl_data metric"
  by (simp add: extract_metrics_seq)

lemma lookup_facts_append_left:
  assumes "namespace \<in> fst ` set x1"
  shows "lookup_facts (x1 @ x2) namespace metric = lookup_facts x1 namespace metric"
proof -
  from assms obtain metrics where "map_of x1 namespace = Some metrics"
    by (cases "map_of x1 namespace") (auto simp: map_of_eq_None_iff)
  then show ?thesis by (simp add: lookup_facts_def map_add_def)
qed

lemma lookup_facts_append_right:
  assumes "namespace \<notin> fst ` set x1"
  shows "lookup_facts (x1 @ x2) namespace metric = lookup_facts x2 namespace metric"
proof -
  from assms have "map_of x1 namespace = None" by (simp add: map_of_eq_None_iff)
  then show ?thesis by (simp add: lookup_facts_def map_add_def)
qed

lemma extract_metrics_namespaces_append:
  assumes "distinct (map fst (x1 @ x2))"
  shows "extract_metrics env (x1 @ x2) [metric] =
     then_rows (extract_metrics env x1 [metric]) (extract_metrics env x2 [metric])"
proof -
  have disj: "namespace \<notin> fst ` set x1" if "namespace \<in> fst ` set x2" for namespace
    using assms that by auto
  have l: "namespace_result env (x1 @ x2) metric namespace
         = namespace_result env x1 metric namespace"
    if "namespace \<in> set (map fst x1)" for namespace
    using that by (simp add: namespace_result_def lookup_facts_append_left)
  have r: "namespace_result env (x1 @ x2) metric namespace
         = namespace_result env x2 metric namespace"
    if "namespace \<in> set (map fst x2)" for namespace
    using that disj by (simp add: namespace_result_def lookup_facts_append_right)
  have m1: "map (namespace_result env (x1 @ x2) metric) (map fst x1)
          = map (namespace_result env x1 metric) (map fst x1)"
    by (rule map_cong [OF refl]) (rule l)
  have m2: "map (namespace_result env (x1 @ x2) metric) (map fst x2)
          = map (namespace_result env x2 metric) (map fst x2)"
    by (rule map_cong [OF refl]) (rule r)
  have "metric_result env (x1 @ x2) metric
      = then_rows (metric_result env x1 metric) (metric_result env x2 metric)"
    unfolding metric_result_def by (simp only: map_append seq_rows_append m1 m2)
  then show ?thesis by (simp only: extract_metrics_single)
qed

lemma lookup_facts_single:
  "lookup_facts [(namespace, setitem metrics metric fs)] namespace metric = fs"
  by (simp add: lookup_facts_def map_of_setitem)

lemma extract_metrics_one_namespace:
  "extract_metrics env [(namespace, setitem metrics metric fs)] [metric] =
     seq_rows (map (\<lambda>f. process_fact env metric namespace f []) fs)"
  by (simp add: extract_metrics_single metric_result_def namespace_result_def
      lookup_facts_single)

lemma extract_metrics_facts_append:
  "extract_metrics env [(namespace, setitem metrics metric (fs1 @ fs2))] [metric] =
     then_rows (extract_metrics env [(namespace, setitem metrics metric fs1)] [metric])
               (extract_metrics env [(namespace, setitem metrics metric fs2)] [metric])"
  by (simp only: extract_metrics_one_namespace map_append seq_rows_append)

lemma extract_metrics_single_fact:
  "extract_metrics env [(namespace, setitem metrics metric [f])] [metric] =
     process_fact env metric namespace f []"
  by (simp add: extract_metrics_one_namespace)

text \<open>Every row carries the metric it was extracted for, so the rows of a metric come
  once for each place the metric has in the list.\<close>

lemma expected_rows_content:
  assumes "row \<in> set (expected_rows env xbrl_data [metric])"
  shows "map_of row (py_str ''content'') = Some (PStr metric)"
proof -
  from expected_rows_member [OF assms] obtain namespace f
    where "row \<in> set (expected_row env metric namespace f)" by auto
  from expected_row_member [OF this] show ?thesis by (auto simp: extracted_row_keys)
qed

lemma rows_per_occurrence:
  "filter (\<lambda>row. map_of row (py_str ''content'') = Some (PStr metric)) (expected_rows env xbrl_data ms)
     = concat (replicate (count_list ms metric) (expected_rows env xbrl_data [metric]))"
proof (induction ms)
  case Nil
  show ?case by (simp add: expected_rows_def)
next
  case (Cons m ms)
  have split: "expected_rows env xbrl_data (k # ms)
      = expected_rows env xbrl_data [k] @ expected_rows env xbrl_data ms"
    for k using expected_rows_append [of env xbrl_data "[k]" ms] by simp
  show ?case
  proof (cases "m = metric")
    case True
    have "filter (\<lambda>row. map_of row (py_str ''content'') = Some (PStr metric)) (expected_rows env xbrl_data [metric])
        = expected_rows env xbrl_data [metric]"
      by (rule filter_True) (simp add: expected_rows_content)
    then show ?thesis using True Cons by (simp add: split)
  next
    case False
    have "filter (\<lambda>row. map_of row (py_str ''content'') = Some (PStr metric)) (expected_rows env xbrl_data [m]) = []"
      using False by (auto simp: filter_empty_conv dest: expected_rows_content)
    then show ?thesis using False Cons by (simp add: split)
  qed
qed

text \<open>\<^verbatim>\<open>strptime\<close> takes the decimal digits of any script: the year below is written with
  Arabic-Indic digits, and the string parses to 2024-02-03.\<close>

lemma arabic_indic_date_parses:
  "strptime_ymd (decimal_digit example_env) ([1634, 1632, 1634, 1636] @ py_str ''-02-03'')
     = Inr (combine 738919 (mk_time 0 0))
   \<and> strptime_ymd (\<lambda>c. None) ([1634, 1632, 1634, 1636] @ py_str ''-02-03'') = Inl ValueError"
  by code_simp

section \<open>The store only grows\<close>

lemma extends_iff: "extends s s' \<longleftrightarrow> (\<exists>ext. s' = s @ ext)"
proof
  assume "extends s s'"
  then have "s' = s @ drop (length s) s'"
    unfolding extends_def by (metis append_take_drop_id)
  then show "\<exists>ext. s' = s @ ext" ..
next
  assume "\<exists>ext. s' = s @ ext"
  then show "extends s s'" by (auto simp: extends_def)
qed

lemma extends_refl: "extends s s"
  by (simp add: extends_def)

lemma extends_trans: "extends s s' \<Longrightarrow> extends s' s'' \<Longrightarrow> extends s s''"
  by (auto simp: extends_iff)

lemma extends_length: "extends s s' \<Longrightarrow> length s \<le> length s'"
  by (auto simp: extends_iff)

lemma extends_nth: "extends s s' \<Longrightarrow> a < length s \<Longrightarrow> s' ! a = s ! a"
  by (auto simp: extends_iff nth_append)

lemma extends_map_nth:
  assumes "extends s s'" "\<forall>a \<in> set as. a < length s"
  shows "map (\<lambda>a. s' ! a) as = map (\<lambda>a. s ! a) as"
  using assms by (simp add: extends_nth)

lemma extends_bound:
  assumes "extends s s'" "\<forall>a \<in> set as. a < length s"
  shows "\<forall>a \<in> set as. a < length s'"
  using assms extends_length [OF assms(1)] by fastforce

lemma new_row_store:
  "store_setitem (store_setitem (store_setitem (s @ [f]) (length s) k1 v1) (length s) k2 v2)
     (length s) k3 v3 = s @ [setitem (setitem (setitem f k1 v1) k2 v2) k3 v3]"
  by (simp add: store_setitem_def)

lemma try_block_st_sim:
  assumes "\<forall>b \<in> set acc. b < length s"
    and "try_block_st env metric namespace a filed acc s = (r, s')"
  shows "extends s s'"
    and "rows_at s' r = try_block env metric namespace (s ! a) filed (map (\<lambda>a. s ! a) acc)"
    and "\<And>acc'. r = Inr acc' \<Longrightarrow> \<forall>b \<in> set acc'. b < length s'"
proof -
  have "extends s s' \<and> rows_at s' r = try_block env metric namespace (s ! a) filed (map (\<lambda>a. s ! a) acc)
      \<and> (\<forall>acc'. r = Inr acc' \<longrightarrow> (\<forall>b \<in> set acc'. b < length s'))"
  proof (cases "strptime env filed")
    case (Inl e)
    then show ?thesis
      using assms(2) by (auto simp: try_block_st_def try_block_def rows_at_def extends_refl)
  next
    case parsed: (Inr p)
    show ?thesis
    proof (cases "shift_to_market_open (dt_date p)")
      case (Inl e)
      then show ?thesis
        using assms(2) parsed
        by (auto simp: try_block_st_def try_block_def rows_at_def extends_refl)
    next
      case (Inr market_day)
      then have r: "r = Inr (acc @ [length s])"
        and s': "s' = s @ [setitem (setitem (setitem (s ! a) (py_str ''market_day'') (PDatetime market_day))
                     (py_str ''namespace'') (PStr namespace)) (py_str ''content'') (PStr metric)]"
        using assms(2) parsed
        by (simp_all add: try_block_st_def dict_copy_def new_row_store Let_def)
      have e: "extends s s'" unfolding s' by (simp add: extends_iff)
      have "map (\<lambda>a. s' ! a) acc = map (\<lambda>a. s ! a) acc"
        using e assms(1) by (rule extends_map_nth)
      then have "rows_at s' r = try_block env metric namespace (s ! a) filed (map (\<lambda>a. s ! a) acc)"
        using parsed Inr by (simp add: r rows_at_def try_block_def Let_def) (simp add: s')
      moreover have "\<forall>b \<in> set (acc @ [length s]). b < length s'"
        using assms(1) by (auto simp: s' less_Suc_eq)
      ultimately show ?thesis using e r by simp
    qed
  qed
  then show "extends s s'"
    and "rows_at s' r = try_block env metric namespace (s ! a) filed (map (\<lambda>a. s ! a) acc)"
    and "\<And>acc'. r = Inr acc' \<Longrightarrow> \<forall>b \<in> set acc'. b < length s'"
    by simp_all
qed

lemma process_fact_st_sim:
  assumes "\<forall>b \<in> set acc. b < length s"
    and "process_fact_st env metric namespace a acc s = (r, s')"
  shows "extends s s'"
    and "rows_at s' r = process_fact env metric namespace (s ! a) (map (\<lambda>a. s ! a) acc)"
    and "\<And>acc'. r = Inr acc' \<Longrightarrow> \<forall>b \<in> set acc'. b < length s'"
proof -
  have "extends s s'
      \<and> rows_at s' r = process_fact env metric namespace (s ! a) (map (\<lambda>a. s ! a) acc)
      \<and> (\<forall>acc'. r = Inr acc' \<longrightarrow> (\<forall>b \<in> set acc'. b < length s'))"
  proof (cases "map_of (s ! a) (py_str ''filed'')")
    case None
    then show ?thesis
      using assms
      by (auto simp: process_fact_st_def process_fact_def rows_at_def extends_refl
          split: option.splits)
  next
    case (Some filed)
    obtain r1 s1 where t: "try_block_st env metric namespace a filed acc s = (r1, s1)"
      by (cases "try_block_st env metric namespace a filed acc s")
    note sim = try_block_st_sim [OF assms(1) t]
    have s1: "s' = s1" using assms(2) Some t
      by (auto simp: process_fact_st_def split: sum.splits error.splits option.splits)
    have keep: "map (\<lambda>a. s1 ! a) acc = map (\<lambda>a. s ! a) acc"
      using sim(1) assms(1) by (rule extends_map_nth)
    have bound: "\<forall>b \<in> set acc. b < length s1"
      using sim(1) assms(1) by (rule extends_bound)
    show ?thesis
    proof (cases r1)
      case (Inr acc1)
      then have "r = Inr acc1" using assms(2) Some t by (simp add: process_fact_st_def)
      then show ?thesis
        using sim Inr Some by (auto simp: s1 process_fact_def rows_at_def split: sum.splits)
    next
      case (Inl e)
      then have pure: "try_block env metric namespace (s ! a) filed (map (\<lambda>a. s ! a) acc) = Inl e"
        using sim(2) by (simp add: rows_at_def)
      show ?thesis
      proof (cases "e = ValueError")
        case True
        show ?thesis
        proof (cases "print_error env (Could_not_parse filed)")
          case None
          then have "r = Inr acc"
            using assms(2) Some t Inl True by (simp add: process_fact_st_def)
          then show ?thesis
            using sim(1) pure True Some None keep bound
            by (simp add: s1 process_fact_def rows_at_def)
        next
          case failed: (Some e')
          then have "r = Inl e'"
            using assms(2) Some t Inl True by (simp add: process_fact_st_def)
          then show ?thesis
            using sim(1) pure True Some failed
            by (simp add: s1 process_fact_def rows_at_def)
        qed
      next
        case False
        then have "r = Inl e" using assms(2) Some t Inl
          by (cases e) (simp_all add: process_fact_st_def)
        then show ?thesis
          using sim(1) pure False Some
          by (cases e) (simp_all add: s1 process_fact_def rows_at_def)
      qed
    qed
  qed
  then show "extends s s'"
    and "rows_at s' r = process_fact env metric namespace (s ! a) (map (\<lambda>a. s ! a) acc)"
    and "\<And>acc'. r = Inr acc' \<Longrightarrow> \<forall>b \<in> set acc'. b < length s'"
    by simp_all
qed

lemma facts_loop_st_sim:
  assumes "\<forall>a \<in> set as. a < length s" "\<forall>b \<in> set acc. b < length s"
    and "facts_loop_st env metric namespace as acc s = (r, s')"
  shows "extends s s' \<and> rows_at s' r
           = facts_loop env metric namespace (map (\<lambda>a. s ! a) as) (map (\<lambda>a. s ! a) acc)
       \<and> (\<forall>acc'. r = Inr acc' \<longrightarrow> (\<forall>b \<in> set acc'. b < length s'))"
  using assms
proof (induction as arbitrary: acc s)
  case Nil
  then show ?case by (auto simp: rows_at_def extends_refl)
next
  case (Cons a as)
  obtain r1 s1 where step: "process_fact_st env metric namespace a acc s = (r1, s1)"
    by (cases "process_fact_st env metric namespace a acc s")
  note sim = process_fact_st_sim [OF Cons.prems(2) step]
  show ?case
  proof (cases r1)
    case (Inl e)
    then have "r = Inl e" "s' = s1" using Cons.prems(3) step by simp_all
    moreover have "process_fact env metric namespace (s ! a) (map (\<lambda>a. s ! a) acc) = Inl e"
      using sim(2) Inl by (simp add: rows_at_def)
    ultimately show ?thesis using sim(1) by (simp add: rows_at_def)
  next
    case (Inr acc1)
    then have rest: "facts_loop_st env metric namespace as acc1 s1 = (r, s')"
      using Cons.prems(3) step by simp
    have "\<forall>a \<in> set as. a < length s" using Cons.prems(1) by simp
    with sim(1) have b1: "\<forall>a \<in> set as. a < length s1" by (rule extends_bound)
    have b2: "\<forall>b \<in> set acc1. b < length s1" using sim(3) Inr by simp
    note ih = Cons.IH [OF b1 b2 rest]
    have keep: "map (\<lambda>a. s1 ! a) as = map (\<lambda>a. s ! a) as"
      using sim(1) Cons.prems(1) by (simp add: extends_nth)
    have pure: "process_fact env metric namespace (s ! a) (map (\<lambda>a. s ! a) acc)
        = Inr (map (\<lambda>a. s1 ! a) acc1)"
      using sim(2) Inr by (simp add: rows_at_def)
    have "extends s s'" using sim(1) ih by (blast intro: extends_trans)
    then show ?thesis using ih pure keep by simp
  qed
qed

lemma refs_in_store_lookup:
  assumes "refs_in_store xbrl_data s" "map_of xbrl_data namespace = Some metrics"
    "map_of metrics metric = Some facts"
  shows "\<forall>a \<in> set facts. a < length s"
proof -
  from assms(2) have "(namespace, metrics) \<in> set xbrl_data" by (rule map_of_SomeD)
  moreover from assms(3) have "(metric, facts) \<in> set metrics" by (rule map_of_SomeD)
  ultimately show ?thesis
    using assms(1) by (fastforce simp: refs_in_store_def list_all_iff)
qed

lemma refs_in_store_extends:
  assumes "refs_in_store xbrl_data s" "extends s s'"
  shows "refs_in_store xbrl_data s'"
  using assms(1) extends_length [OF assms(2)]
  by (fastforce simp: refs_in_store_def list_all_iff)

lemma deref_xbrl_extends:
  assumes "refs_in_store xbrl_data s" "extends s s'"
  shows "deref_xbrl s' xbrl_data = deref_xbrl s xbrl_data"
proof -
  have same: "s' ! a = s ! a"
    if "(namespace, metrics) \<in> set xbrl_data" "(metric, facts) \<in> set metrics" "a \<in> set facts"
    for namespace metrics metric facts a
  proof -
    from assms(1) that have "a < length s"
      by (fastforce simp: refs_in_store_def list_all_iff)
    with assms(2) show ?thesis by (rule extends_nth)
  qed
  show ?thesis unfolding deref_xbrl_def by (auto simp: same)
qed

lemma map_of_deref_xbrl:
  "map_of (deref_xbrl s xbrl_data) namespace =
     map_option (map (\<lambda>(metric, facts). (metric, map (\<lambda>a. s ! a) facts)))
       (map_of xbrl_data namespace)"
  unfolding deref_xbrl_def by (induction xbrl_data) auto

lemma map_of_deref_metrics:
  "map_of (map (\<lambda>(metric, facts). (metric, map (\<lambda>a. s ! a) facts)) metrics) metric =
     map_option (map (\<lambda>a. s ! a)) (map_of metrics metric)"
  by (induction metrics) auto

lemma keys_deref_xbrl: "map fst (deref_xbrl s xbrl_data) = map fst xbrl_data"
  by (simp add: deref_xbrl_def case_prod_beta comp_def)

lemma process_namespace_st_sim:
  assumes "refs_in_store xbrl_data s" "\<forall>b \<in> set acc. b < length s"
    and "process_namespace_st env xbrl_data metric namespace acc s = (r, s')"
  shows "extends s s' \<and> rows_at s' r
           = process_namespace env (deref_xbrl s xbrl_data) metric namespace (map (\<lambda>a. s ! a) acc)
       \<and> (\<forall>acc'. r = Inr acc' \<longrightarrow> (\<forall>b \<in> set acc'. b < length s'))"
proof (cases "map_of xbrl_data namespace")
  case None
  then show ?thesis
    using assms(3)
    by (auto simp: process_namespace_st_def process_namespace_def map_of_deref_xbrl
        rows_at_def extends_refl)
next
  case ns: (Some metrics)
  show ?thesis
  proof (cases "map_of metrics metric")
    case None
    then show ?thesis
      using assms(2,3) ns
      by (auto simp: process_namespace_st_def process_namespace_def map_of_deref_xbrl
          map_of_deref_metrics print_metrics_def rows_at_def extends_refl)
  next
    case (Some facts)
    have loop: "facts_loop_st env metric namespace facts acc s = (r, s')"
      using assms(3) ns Some by (simp add: process_namespace_st_def)
    have b: "\<forall>a \<in> set facts. a < length s"
      using assms(1) ns Some by (rule refs_in_store_lookup)
    have "process_namespace env (deref_xbrl s xbrl_data) metric namespace (map (\<lambda>a. s ! a) acc)
        = facts_loop env metric namespace (map (\<lambda>a. s ! a) facts) (map (\<lambda>a. s ! a) acc)"
      using ns Some by (simp add: process_namespace_def map_of_deref_xbrl map_of_deref_metrics)
    then show ?thesis using facts_loop_st_sim [OF b assms(2) loop] by simp
  qed
qed

lemma namespaces_loop_st_sim:
  assumes "refs_in_store xbrl_data s" "\<forall>b \<in> set acc. b < length s"
    and "namespaces_loop_st env xbrl_data metric nss acc s = (r, s')"
  shows "extends s s' \<and> rows_at s' r
           = namespaces_loop env (deref_xbrl s xbrl_data) metric nss (map (\<lambda>a. s ! a) acc)
       \<and> (\<forall>acc'. r = Inr acc' \<longrightarrow> (\<forall>b \<in> set acc'. b < length s'))"
  using assms
proof (induction nss arbitrary: acc s)
  case Nil
  then show ?case by (auto simp: rows_at_def extends_refl)
next
  case (Cons namespace nss)
  obtain r1 s1 where step: "process_namespace_st env xbrl_data metric namespace acc s = (r1, s1)"
    by (cases "process_namespace_st env xbrl_data metric namespace acc s")
  note sim = process_namespace_st_sim [OF Cons.prems(1,2) step]
  show ?case
  proof (cases r1)
    case (Inl e)
    then have "r = Inl e" "s' = s1" using Cons.prems(3) step by simp_all
    moreover have "process_namespace env (deref_xbrl s xbrl_data) metric namespace
        (map (\<lambda>a. s ! a) acc) = Inl e"
      using sim Inl by (simp add: rows_at_def)
    ultimately show ?thesis using sim by (simp add: rows_at_def)
  next
    case (Inr acc1)
    then have rest: "namespaces_loop_st env xbrl_data metric nss acc1 s1 = (r, s')"
      using Cons.prems(3) step by simp
    have e1: "extends s s1" using sim by simp
    have refs1: "refs_in_store xbrl_data s1"
      using Cons.prems(1) e1 by (rule refs_in_store_extends)
    have b1: "\<forall>b \<in> set acc1. b < length s1" using sim Inr by simp
    note ih = Cons.IH [OF refs1 b1 rest]
    have same: "deref_xbrl s1 xbrl_data = deref_xbrl s xbrl_data"
      using Cons.prems(1) e1 by (rule deref_xbrl_extends)
    have pure: "process_namespace env (deref_xbrl s xbrl_data) metric namespace
        (map (\<lambda>a. s ! a) acc) = Inr (map (\<lambda>a. s1 ! a) acc1)"
      using sim Inr by (simp add: rows_at_def)
    have "extends s s'" using e1 ih by (blast intro: extends_trans)
    then show ?thesis using ih pure same by simp
  qed
qed

lemma metrics_loop_st_sim:
  assumes "refs_in_store xbrl_data s" "\<forall>b \<in> set acc. b < length s"
    and "metrics_loop_st env xbrl_data ms acc s = (r, s')"
  shows "extends s s' \<and> rows_at s' r
           = metrics_loop env (deref_xbrl s xbrl_data) ms (map (\<lambda>a. s ! a) acc)
       \<and> (\<forall>acc'. r = Inr acc' \<longrightarrow> (\<forall>b \<in> set acc'. b < length s'))"
  using assms
proof (induction ms arbitrary: acc s)
  case Nil
  then show ?case by (auto simp: rows_at_def extends_refl)
next
  case (Cons metric ms)
  obtain r1 s1
    where step: "namespaces_loop_st env xbrl_data metric (map fst xbrl_data) acc s = (r1, s1)"
    by (cases "namespaces_loop_st env xbrl_data metric (map fst xbrl_data) acc s")
  note sim = namespaces_loop_st_sim [OF Cons.prems(1,2) step]
  show ?case
  proof (cases r1)
    case (Inl e)
    then have "r = Inl e" "s' = s1" using Cons.prems(3) step by simp_all
    moreover have "namespaces_loop env (deref_xbrl s xbrl_data) metric (map fst xbrl_data)
        (map (\<lambda>a. s ! a) acc) = Inl e"
      using sim Inl by (simp add: rows_at_def)
    ultimately show ?thesis using sim by (simp add: rows_at_def keys_deref_xbrl)
  next
    case (Inr acc1)
    then have rest: "metrics_loop_st env xbrl_data ms acc1 s1 = (r, s')"
      using Cons.prems(3) step by simp
    have e1: "extends s s1" using sim by simp
    have refs1: "refs_in_store xbrl_data s1"
      using Cons.prems(1) e1 by (rule refs_in_store_extends)
    have b1: "\<forall>b \<in> set acc1. b < length s1" using sim Inr by simp
    note ih = Cons.IH [OF refs1 b1 rest]
    have same: "deref_xbrl s1 xbrl_data = deref_xbrl s xbrl_data"
      using Cons.prems(1) e1 by (rule deref_xbrl_extends)
    have pure: "namespaces_loop env (deref_xbrl s xbrl_data) metric (map fst xbrl_data)
        (map (\<lambda>a. s ! a) acc) = Inr (map (\<lambda>a. s1 ! a) acc1)"
      using sim Inr by (simp add: rows_at_def)
    have "extends s s'" using e1 ih by (blast intro: extends_trans)
    then show ?thesis using ih pure same by (simp add: keys_deref_xbrl)
  qed
qed

lemma extract_metrics_st_sim:
  assumes "refs_in_store xbrl_data s"
    and "extract_metrics_st env xbrl_data ms s = (r, s')"
  shows "extends s s'"
    and "rows_at s' r = extract_metrics env (deref_xbrl s xbrl_data) ms"
    and "\<And>rows. r = Inr rows \<Longrightarrow> \<forall>b \<in> set rows. b < length s'"
  using metrics_loop_st_sim [of xbrl_data s "[]" env ms r s'] assms
  by (simp_all add: extract_metrics_st_def extract_metrics_def)

section \<open>Claims about the trading calendar\<close>

text \<open>
  C3. For every calendar date \<open>d\<close> that is a Saturday, \<open>shift_to_market_open d\<close> returns
  the following Monday, \<open>d + 2\<close>, at 09:30; for every Sunday it returns the following
  Monday, \<open>d + 1\<close>, at 09:30; in both cases the shift adds \<open>7 - weekday d\<close> days. No
  weekend date overflows the calendar, because the last day of year 9999 is a Friday.
\<close>

theorem shift_to_market_open_weekend:
  assumes "valid_date d"
  shows "(weekday d = 5 \<longrightarrow>
            shift_to_market_open d = Inr (combine (d + 2) (mk_time 9 30)) \<and> weekday (d + 2) = 0)
       \<and> (weekday d = 6 \<longrightarrow>
            shift_to_market_open d = Inr (combine (d + 1) (mk_time 9 30)) \<and> weekday (d + 1) = 0)
       \<and> (weekday d \<ge> 5 \<longrightarrow>
            shift_to_market_open d = Inr (combine (d + (7 - weekday d)) (mk_time 9 30)))"
proof -
  have sat: "weekday (d + 2) = 0" if "weekday d = 5"
    using that by (rule weekday_plus2)
  have sun: "weekday (d + 1) = 0" if "weekday d = 6"
    using that by (simp add: weekday_succ)
  show ?thesis using shift_weekend_value [OF assms] sat sun by auto
qed

theorem shift_to_market_open_weekend_witness:
  "valid_date 738919 \<and> weekday 738919 = 5
   \<and> shift_to_market_open 738919 = Inr (combine 738921 (mk_time 9 30)) \<and> weekday 738921 = 0
   \<and> valid_date 738920 \<and> weekday 738920 = 6
   \<and> shift_to_market_open 738920 = Inr (combine 738921 (mk_time 9 30))"
proof -
  have v: "valid_date 738919" "valid_date 738920"
    by (simp_all add: valid_date_def MAXORDINAL_def)
  have w: "weekday 738919 = 5" "weekday 738920 = 6"
    by (simp_all add: weekday_def)
  show ?thesis
    using v w shift_to_market_open_weekend [OF v(1)] shift_to_market_open_weekend [OF v(2)]
    by simp
qed

text \<open>
  C4. For every calendar date \<open>d\<close> from Monday to Friday, \<open>shift_to_market_open d\<close> returns
  the naive timestamp of \<open>d\<close> itself at 09:30:00; the date part is not moved.
\<close>

theorem shift_to_market_open_weekday:
  assumes "weekday d \<le> 4"
  shows "shift_to_market_open d =
     Inr \<lparr>dt_date = d, dt_time = \<lparr>hour = 9, minute = 30, second = 0, microsecond = 0\<rparr>\<rparr>"
  using shift_weekday_value [OF assms] by (simp add: combine_def mk_time_def)

theorem shift_to_market_open_weekday_witness:
  "weekday 738918 = 4
   \<and> shift_to_market_open 738918 =
       Inr \<lparr>dt_date = 738918, dt_time = \<lparr>hour = 9, minute = 30, second = 0, microsecond = 0\<rparr>\<rparr>"
proof -
  have w: "weekday 738918 \<le> 4" "weekday 738918 = 4" by (simp_all add: weekday_def)
  show ?thesis using w(2) shift_to_market_open_weekday [OF w(1)] by simp
qed

text \<open>
  C5, as stated, for every calendar date: \<open>next_trading_day d\<close> is \<open>d + 1\<close> when that is a
  weekday and the following Monday otherwise, later than \<open>d\<close> and never on a weekend.
  It fails at the last date of the calendar, 9999-12-31 (\<^verbatim>\<open>date.max\<close>): the first
  addition raises \<^verbatim>\<open>OverflowError\<close> and no date is returned.
\<close>

theorem next_trading_day_date_max:
  "valid_date MAXORDINAL \<and> next_trading_day MAXORDINAL = Inl OverflowError"
  by (simp add: valid_date_def next_trading_day_def date_add_days_def MAXORDINAL_def)

text \<open>
  C5, amended: for every calendar date \<open>d\<close> before 9999-12-31, \<open>next_trading_day d\<close>
  returns \<open>d + 1\<close> if \<open>d + 1\<close> falls on Monday to Friday and otherwise the following
  Monday; the result is later than \<open>d\<close> and never a Saturday or Sunday.
\<close>

theorem next_trading_day_correct:
  assumes "valid_date d" "d \<noteq> MAXORDINAL"
  shows "\<exists>r. next_trading_day d = Inr r
           \<and> r = (if weekday (d + 1) \<le> 4 then d + 1 else d + 1 + (7 - weekday (d + 1)))
           \<and> d < r \<and> weekday r \<le> 4
           \<and> (weekday (d + 1) \<ge> 5 \<longrightarrow> weekday r = 0)"
proof -
  define r where "r = (if weekday d = 4 then d + 3 else if weekday d = 5 then d + 2 else d + 1)"
  have ntd: "next_trading_day d = Inr r"
    unfolding r_def by (rule next_trading_day_value [OF assms])
  have w1: "weekday (d + 1) = (if weekday d = 6 then 0 else weekday d + 1)"
    by (rule weekday_succ)
  have w2: "weekday (d + 2) = 0" if "weekday d = 5"
    using that by (rule weekday_plus2)
  have w3: "weekday (d + 3) = 0" if "weekday d = 4"
    using that by (rule weekday_plus3)
  have rng: "0 \<le> weekday d \<and> weekday d < 7" by (rule weekday_range)
  have shape: "r = (if weekday (d + 1) \<le> 4 then d + 1 else d + 1 + (7 - weekday (d + 1)))"
    using rng unfolding r_def w1 by auto
  have later: "d < r" unfolding r_def by simp
  consider "weekday d = 4" | "weekday d = 5" | "weekday d = 6" | "weekday d \<le> 3"
    using rng by linarith
  then have wr: "weekday r \<le> 4 \<and> (weekday (d + 1) \<ge> 5 \<longrightarrow> weekday r = 0)"
  proof cases
    case 1
    then show ?thesis using w3 by (simp add: r_def)
  next
    case 2
    then show ?thesis using w2 by (simp add: r_def)
  next
    case 3
    then have "r = d + 1" "weekday (d + 1) = 0" by (simp_all add: r_def w1)
    then show ?thesis by simp
  next
    case 4
    then have "r = d + 1" "weekday (d + 1) = weekday d + 1" by (simp_all add: r_def w1)
    then show ?thesis using 4 by simp
  qed
  show ?thesis using ntd shape later wr by blast
qed

theorem next_trading_day_correct_witness:
  "valid_date 738918 \<and> 738918 \<noteq> MAXORDINAL \<and> weekday (738918 + 1) = 5
   \<and> next_trading_day 738918 = Inr 738921 \<and> weekday 738921 = 0"
proof -
  have v: "valid_date 738918" "738918 \<noteq> MAXORDINAL"
    by (simp_all add: valid_date_def MAXORDINAL_def)
  have w: "weekday (738918 + 1) = 5" "weekday 738921 = 0"
    by (simp_all add: weekday_def)
  show ?thesis using v w next_trading_day_correct [OF v] by auto
qed

text \<open>
  C10, as stated: the loop ends within two rounds and the returned date is at most three
  days after the input, the bound being attained exactly on a Friday. It fails at
  9999-12-31, a Friday for which no date is returned at all.
\<close>

theorem next_trading_day_friday_date_max:
  "valid_date MAXORDINAL \<and> weekday MAXORDINAL = 4
   \<and> next_trading_day MAXORDINAL = Inl OverflowError
   \<and> next_trading_day MAXORDINAL \<noteq> Inr (MAXORDINAL + 3)"
  by (simp add: valid_date_def weekday_def next_trading_day_def date_add_days_def
      MAXORDINAL_def)

text \<open>
  C10, amended: the \<^verbatim>\<open>while\<close> loop of \<open>next_trading_day\<close> ends after at most two rounds
  from every date; for every input date before 9999-12-31 the returned date is at most
  three days after the input, and exactly three days after it when the input is a Friday.
\<close>

theorem next_trading_day_bounded:
  "skip_weekend_upto 2 x = Some (skip_weekend x)
   \<and> (valid_date d \<and> d \<noteq> MAXORDINAL \<longrightarrow>
        (\<exists>r. next_trading_day d = Inr r \<and> skip_weekend_upto 2 (d + 1) = Some (Inr r)
           \<and> d < r \<and> r \<le> d + 3 \<and> (r = d + 3 \<longleftrightarrow> weekday d = 4)))"
proof -
  have bound: "\<exists>r. next_trading_day d = Inr r \<and> skip_weekend_upto 2 (d + 1) = Some (Inr r)
      \<and> d < r \<and> r \<le> d + 3 \<and> (r = d + 3 \<longleftrightarrow> weekday d = 4)"
    if v: "valid_date d" "d \<noteq> MAXORDINAL"
  proof -
    define r where "r = (if weekday d = 4 then d + 3 else if weekday d = 5 then d + 2 else d + 1)"
    have ntd: "next_trading_day d = Inr r"
      unfolding r_def by (rule next_trading_day_value [OF v])
    have a: "date_add_days d 1 = Inr (d + 1)"
      using v by (simp add: date_add_days_def valid_date_def)
    have "skip_weekend (d + 1) = Inr r"
      using ntd by (simp add: next_trading_day_def a)
    then have upto: "skip_weekend_upto 2 (d + 1) = Some (Inr r)"
      by (simp only: skip_weekend_two_rounds)
    have "d < r \<and> r \<le> d + 3 \<and> (r = d + 3 \<longleftrightarrow> weekday d = 4)"
      unfolding r_def by simp
    with ntd upto show ?thesis by blast
  qed
  show ?thesis using skip_weekend_two_rounds [of x] bound by blast
qed

theorem next_trading_day_bounded_witness:
  "skip_weekend_upto 2 738919 = Some (Inr 738921)
   \<and> valid_date 738918 \<and> 738918 \<noteq> MAXORDINAL \<and> weekday 738918 = 4
   \<and> next_trading_day 738918 = Inr (738918 + 3)"
proof -
  have v: "valid_date 738918 \<and> 738918 \<noteq> MAXORDINAL"
    by (simp add: valid_date_def MAXORDINAL_def)
  have w: "weekday 738918 = 4" by (simp add: weekday_def)
  have s: "skip_weekend 738919 = Inr 738921"
    using next_trading_day_value [of 738918] v w
    by (simp add: next_trading_day_def date_add_days_def MAXORDINAL_def)
  show ?thesis
    using v w s next_trading_day_bounded [of 738919 738918] by auto
qed

section \<open>Claims about the extractor\<close>




text \<open>
  C2, as stated: a fact whose \<open>filed\<close> string does not parse adds no row, raises nothing,
  and the loop goes on. It fails when the line that the handler prints about the fact
  cannot be written. The \<open>filed\<close> below is a lone surrogate, which \<^verbatim>\<open>json.load\<close> can
  deliver and UTF-8 cannot encode: \<^verbatim>\<open>strptime\<close> rejects it, the \<^verbatim>\<open>print\<close> in the handler
  raises \<^verbatim>\<open>UnicodeEncodeError\<close>, and the fact after it is not processed.
\<close>

theorem unparseable_filed_print_raises:
  "map_of (example_fact [56448]) (py_str ''filed'') = Some (PStr [56448])
   \<and> strptime_ymd (decimal_digit example_env) [56448] = Inl ValueError
   \<and> process_fact example_env (py_str ''us-gaap_NetIncomeLoss_USD'') (py_str ''us-gaap'')
        (example_fact [56448]) [] = Inl UnicodeEncodeError
   \<and> extract_metrics example_env
        (example_xbrl (py_str ''us-gaap_NetIncomeLoss_USD'')
           [example_fact [56448], example_fact (py_str ''2024-02-02'')])
        [py_str ''us-gaap_NetIncomeLoss_USD'']
     = Inl UnicodeEncodeError"
  by code_simp

text \<open>
  C2, amended. A fact that has no \<open>filed\<close> field, or whose \<open>filed\<close> string \<^verbatim>\<open>strptime\<close>
  rejects, adds no row: its round of the loop either returns \<open>metrics_data\<close> as it was or
  raises what the \<^verbatim>\<open>print\<close> of the line about the fact raises. When that line is written
  (\<open>diagnostic_printed\<close>), nothing is raised and the loop goes on with the remaining facts
  as if the fact were not in the list. Every row that \<open>extract_metrics\<close> returns has a
  \<open>filed\<close> that parses.
\<close>

theorem unparseable_filed_skipped:
  fixes env :: "'a env" and f :: "'a fact" and xbrl_data :: "'a xbrl"
  assumes "map_of f (py_str ''filed'') = None
         \<or> (\<exists>s e. map_of f (py_str ''filed'') = Some (PStr s)
                  \<and> strptime_ymd (decimal_digit env) s = Inl e)"
  shows "process_fact env metric namespace f metrics_data
           = (case print_error env (diagnostic f) of
                None \<Rightarrow> Inr metrics_data
              | Some e \<Rightarrow> Inl e)
       \<and> (diagnostic_printed env f \<longrightarrow>
            process_fact env metric namespace f metrics_data = Inr metrics_data
            \<and> facts_loop env metric namespace (before @ f # after) metrics_data
                = facts_loop env metric namespace (before @ after) metrics_data)
       \<and> (\<forall>rows. extract_metrics env xbrl_data metrics_list = Inr rows \<longrightarrow>
             (\<forall>row \<in> set rows. parsed_filed env row \<noteq> None))"
proof -
  from assms have typed: "filed_is_str f" and unparsed: "parsed_filed env f = None"
    by (auto simp: filed_is_str_def parsed_filed_def)
  have body: "process_fact env metric namespace f acc
           = (case print_error env (diagnostic f) of None \<Rightarrow> Inr acc | Some e \<Rightarrow> Inl e)"
    for acc
    using typed unparsed by (simp add: process_fact_cases split: option.splits)
  have loop: "facts_loop env metric namespace (before @ f # after) metrics_data
           = facts_loop env metric namespace (before @ after) metrics_data"
    if "diagnostic_printed env f"
  proof -
    have "process_fact env metric namespace f [] = Inr []"
      using that by (simp add: body diagnostic_printed_def)
    then show ?thesis by (simp add: facts_loop_seq seq_rows_append)
  qed
  have top: "parsed_filed env row \<noteq> None"
    if r: "extract_metrics env xbrl_data metrics_list = Inr rows" and m: "row \<in> set rows"
    for rows row
  proof -
    from r have "rows = expected_rows env xbrl_data metrics_list"
      by (rule extract_metrics_InrD)
    with m expected_rows_member obtain metric' namespace' f'
      where "row \<in> set (expected_row env metric' namespace' f')" by blast
    from expected_row_member [OF this] obtain d market_day
      where p: "parsed_filed env f' = Some d"
        and row: "row = extracted_row metric' namespace' f' market_day" by blast
    have "map_of row (py_str ''filed'') = map_of f' (py_str ''filed'')"
      unfolding row by (rule extracted_row_keys)
    then have "parsed_filed env row = parsed_filed env f'" by (simp add: parsed_filed_def)
    with p show ?thesis by simp
  qed
  have printed: "process_fact env metric namespace f metrics_data = Inr metrics_data"
    if "diagnostic_printed env f"
    using that by (simp add: body diagnostic_printed_def)
  show ?thesis using body [of metrics_data] printed loop top by blast
qed

theorem unparseable_filed_skipped_witness:
  "strptime_ymd (decimal_digit example_env) (py_str ''not-a-date'') = Inl ValueError
   \<and> diagnostic_printed example_env (example_fact (py_str ''not-a-date''))
   \<and> process_fact example_env (py_str ''us-gaap_NetIncomeLoss_USD'') (py_str ''us-gaap'')
        (example_fact (py_str ''not-a-date'')) [] = Inr []
   \<and> facts_loop example_env (py_str ''us-gaap_NetIncomeLoss_USD'') (py_str ''us-gaap'')
        ([example_fact (py_str ''2024-02-02'')] @ example_fact (py_str ''not-a-date'')
           # [example_fact (py_str ''2024-02-03'')]) []
     = facts_loop example_env (py_str ''us-gaap_NetIncomeLoss_USD'') (py_str ''us-gaap'')
        ([example_fact (py_str ''2024-02-02'')] @ [example_fact (py_str ''2024-02-03'')]) []"
proof -
  let ?f = "example_fact (py_str ''not-a-date'')"
  have bad: "strptime_ymd (decimal_digit example_env) (py_str ''not-a-date'') = Inl ValueError"
    by code_simp
  have filed: "map_of ?f (py_str ''filed'') = Some (PStr (py_str ''not-a-date''))"
    by (simp add: example_fact_def)
  have printed: "diagnostic_printed example_env ?f" by code_simp
  have pre: "map_of ?f (py_str ''filed'') = None
      \<or> (\<exists>s e. map_of ?f (py_str ''filed'') = Some (PStr s)
               \<and> strptime_ymd (decimal_digit example_env) s = Inl e)"
    using bad filed by blast
  show ?thesis
    using bad printed
      unparseable_filed_skipped [OF pre, of "py_str ''us-gaap_NetIncomeLoss_USD''"
        "py_str ''us-gaap''" "[]" "[example_fact (py_str ''2024-02-02'')]"
        "[example_fact (py_str ''2024-02-03'')]"]
    by blast
qed

text \<open>
  C6. When the metric is not a key of \<open>xbrl_data[namespace]\<close>, the round of the namespace
  loop leaves \<open>metrics_data\<close> as it was, and no row that \<open>extract_metrics\<close> returns has that
  metric as \<open>content\<close> together with that namespace as \<open>namespace\<close>.
\<close>

theorem absent_metric_no_row:
  assumes "map_of xbrl_data namespace = Some metrics" "map_of metrics metric = None"
  shows "process_namespace env xbrl_data metric namespace metrics_data = Inr metrics_data
       \<and> (\<forall>rows. extract_metrics env xbrl_data metrics_list = Inr rows \<longrightarrow>
             (\<forall>row \<in> set rows.
                \<not> (map_of row (py_str ''content'') = Some (PStr metric)
                    \<and> map_of row (py_str ''namespace'') = Some (PStr namespace))))"
proof -
  have body: "process_namespace env xbrl_data metric namespace metrics_data = Inr metrics_data"
    using assms by (simp add: process_namespace_def print_metrics_def)
  have nofacts: "lookup_facts xbrl_data namespace metric = []"
    using assms by (simp add: lookup_facts_def)
  have top: "\<not> (map_of row (py_str ''content'') = Some (PStr metric)
               \<and> map_of row (py_str ''namespace'') = Some (PStr namespace))"
    if r: "extract_metrics env xbrl_data metrics_list = Inr rows" and m: "row \<in> set rows"
    for rows row
  proof
    assume tagged: "map_of row (py_str ''content'') = Some (PStr metric)
               \<and> map_of row (py_str ''namespace'') = Some (PStr namespace)"
    from r have "rows = expected_rows env xbrl_data metrics_list"
      by (rule extract_metrics_InrD)
    with m expected_rows_member obtain metric' namespace' f'
      where f': "f' \<in> set (lookup_facts xbrl_data namespace' metric')"
        and "row \<in> set (expected_row env metric' namespace' f')" by blast
    from expected_row_member [OF this(2)] obtain market_day
      where "row = extracted_row metric' namespace' f' market_day" by blast
    with tagged have "metric' = metric" "namespace' = namespace"
      by (simp_all add: extracted_row_keys)
    with f' nofacts show False by simp
  qed
  show ?thesis using body top by blast
qed

theorem absent_metric_no_row_witness:
  "map_of (example_xbrl (py_str ''us-gaap_NetIncomeLoss_USD'')
             [example_fact (py_str ''2024-02-02'')]) (py_str ''us-gaap'')
     = Some [(py_str ''us-gaap_NetIncomeLoss_USD'', [example_fact (py_str ''2024-02-02'')])]
   \<and> map_of [(py_str ''us-gaap_NetIncomeLoss_USD'', [example_fact (py_str ''2024-02-02'')])]
        (py_str ''us-gaap_Assets_USD'')
     = None
   \<and> process_namespace example_env
        (example_xbrl (py_str ''us-gaap_NetIncomeLoss_USD'') [example_fact (py_str ''2024-02-02'')])
        (py_str ''us-gaap_Assets_USD'') (py_str ''us-gaap'') [] = Inr []"
proof -
  have a: "map_of (example_xbrl (py_str ''us-gaap_NetIncomeLoss_USD'')
             [example_fact (py_str ''2024-02-02'')]) (py_str ''us-gaap'')
      = Some [(py_str ''us-gaap_NetIncomeLoss_USD'', [example_fact (py_str ''2024-02-02'')])]"
    by (simp add: example_xbrl_def)
  have b: "map_of [(py_str ''us-gaap_NetIncomeLoss_USD'', [example_fact (py_str ''2024-02-02'')])]
      (py_str ''us-gaap_Assets_USD'') = None"
    by simp
  show ?thesis using a b absent_metric_no_row [OF a b, of example_env "[]"] by blast
qed

text \<open>
  C7. The output keeps the order of the loops. The rows of a metric list are the rows of
  its front part followed by the rows of its rest (metric order outermost); for one
  metric, the rows of the namespaces come in the order of the keys of \<open>xbrl_data\<close>; for
  one metric in one namespace, the rows follow the list of facts, each fact giving what
  its round of the loop appends. No step looks at the dates, so nothing is sorted.
\<close>

theorem extract_metrics_order:
  "extract_metrics env xbrl_data (ms1 @ ms2)
     = then_rows (extract_metrics env xbrl_data ms1) (extract_metrics env xbrl_data ms2)
   \<and> (distinct (map fst (x1 @ x2)) \<longrightarrow>
        extract_metrics env (x1 @ x2) [metric]
          = then_rows (extract_metrics env x1 [metric]) (extract_metrics env x2 [metric]))
   \<and> extract_metrics env [(namespace, setitem metrics metric (fs1 @ fs2))] [metric]
       = then_rows (extract_metrics env [(namespace, setitem metrics metric fs1)] [metric])
                   (extract_metrics env [(namespace, setitem metrics metric fs2)] [metric])
   \<and> extract_metrics env [(namespace, setitem metrics metric [f])] [metric]
       = process_fact env metric namespace f []"
  using extract_metrics_append [of env xbrl_data ms1 ms2]
    extract_metrics_namespaces_append [of x1 x2 env metric]
    extract_metrics_facts_append [of env namespace metrics metric fs1 fs2]
    extract_metrics_single_fact [of env namespace metrics metric f]
  by blast

theorem extract_metrics_order_witness:
  "distinct (map fst ([(py_str ''dei'', [(py_str ''m'', [example_fact (py_str ''2024-02-05'')])])]
                      @ [(py_str ''us-gaap'', [(py_str ''m'', [example_fact (py_str ''2024-02-02'')])])]))
   \<and> extract_metrics example_env
        ([(py_str ''dei'', [(py_str ''m'', [example_fact (py_str ''2024-02-05'')])])]
         @ [(py_str ''us-gaap'', [(py_str ''m'', [example_fact (py_str ''2024-02-02'')])])])
        [py_str ''m'']
     = Inr [extracted_row (py_str ''m'') (py_str ''dei'') (example_fact (py_str ''2024-02-05''))
              (combine 738921 (mk_time 9 30)),
            extracted_row (py_str ''m'') (py_str ''us-gaap'') (example_fact (py_str ''2024-02-02''))
              (combine 738918 (mk_time 9 30))]"
proof -
  let ?x1 = "[(py_str ''dei'', [(py_str ''m'', [example_fact (py_str ''2024-02-05'')])])]"
  let ?x2 = "[(py_str ''us-gaap'', [(py_str ''m'', [example_fact (py_str ''2024-02-02'')])])]"
  have d: "distinct (map fst (?x1 @ ?x2))" by simp
  have r1: "extract_metrics example_env ?x1 [py_str ''m'']
      = Inr [extracted_row (py_str ''m'') (py_str ''dei'') (example_fact (py_str ''2024-02-05''))
               (combine 738921 (mk_time 9 30))]"
    by code_simp
  have r2: "extract_metrics example_env ?x2 [py_str ''m'']
      = Inr [extracted_row (py_str ''m'') (py_str ''us-gaap'') (example_fact (py_str ''2024-02-02''))
               (combine 738918 (mk_time 9 30))]"
    by code_simp
  have "extract_metrics example_env (?x1 @ ?x2) [py_str ''m'']
      = then_rows (extract_metrics example_env ?x1 [py_str ''m''])
                  (extract_metrics example_env ?x2 [py_str ''m''])"
    using extract_metrics_order [of example_env _ "[]" "[]" ?x1 ?x2 "py_str ''m''"] d by blast
  then show ?thesis using d by (simp only: r1 r2 then_rows_def sum.case append.simps)
qed

text \<open>
  C9. \<open>extract_metrics\<close> does not deduplicate (\<open>rows_per_occurrence\<close>: a metric that occurs
  \<open>k\<close> times in the list has its rows \<open>k\<close> times). The module's \<open>top_25_metrics\<close>, however,
  holds \<^verbatim>\<open>us-gaap_ResearchAndDevelopmentExpense_USD\<close> once, not twice: the comma missing
  on line 47 merges the first occurrence with the next literal. A fact of that metric
  is therefore emitted once, and a fact of \<^verbatim>\<open>us-gaap_NetIncomeLoss_USD\<close> never.
\<close>

theorem top_25_metrics_research_once:
  "length top_25_metrics = 26
   \<and> count_list top_25_metrics (py_str ''us-gaap_ResearchAndDevelopmentExpense_USD'') = 1
   \<and> count_list top_25_metrics (py_str ''us-gaap_NetIncomeLoss_USD'') = 0
   \<and> top_25_metrics ! 2
       = py_str ''us-gaap_ResearchAndDevelopmentExpense_USDus-gaap_NetIncomeLoss_USD''
   \<and> extract_metrics_from_EDGAR_XBRL env
        (example_xbrl (py_str ''us-gaap_ResearchAndDevelopmentExpense_USD'')
           [example_fact (py_str ''2024-02-02'')])
      = Inr [extracted_row (py_str ''us-gaap_ResearchAndDevelopmentExpense_USD'')
               (py_str ''us-gaap'') (example_fact (py_str ''2024-02-02''))
               (combine 738918 (mk_time 9 30))]
   \<and> extract_metrics_from_EDGAR_XBRL env
        (example_xbrl (py_str ''us-gaap_NetIncomeLoss_USD'') [example_fact (py_str ''2024-02-02'')])
      = Inr []"
  by code_simp

section \<open>Claims about the input\<close>

text \<open>
  C8. \<open>extract_metrics\<close> does not mutate \<^verbatim>\<open>xbrl_data\<close>. After a call, whether it returns or
  raises, every object that was in the store is unchanged, so \<^verbatim>\<open>xbrl_data\<close> has the value
  it had before; what the call returns is what the function on values returns for that
  value. A second call with the same arguments returns rows that are structurally
  identical to the rows of the first (new objects with the same items), and leaves the
  rows of the first call as they were.
\<close>

theorem extract_metrics_no_mutation:
  assumes "refs_in_store xbrl_data s"
    and "extract_metrics_st env xbrl_data metrics_list s = (r1, s1)"
    and "extract_metrics_st env xbrl_data metrics_list s1 = (r2, s2)"
  shows "take (length s) s1 = s \<and> take (length s) s2 = s
       \<and> deref_xbrl s1 xbrl_data = deref_xbrl s xbrl_data
       \<and> deref_xbrl s2 xbrl_data = deref_xbrl s xbrl_data
       \<and> rows_at s1 r1 = extract_metrics env (deref_xbrl s xbrl_data) metrics_list
       \<and> rows_at s2 r2 = rows_at s1 r1
       \<and> rows_at s2 r1 = rows_at s1 r1"
proof -
  note first = extract_metrics_st_sim [OF assms(1,2)]
  have refs1: "refs_in_store xbrl_data s1" using assms(1) first(1) by (rule refs_in_store_extends)
  note second = extract_metrics_st_sim [OF refs1 assms(3)]
  have e2: "extends s s2" using first(1) second(1) by (rule extends_trans)
  have d1: "deref_xbrl s1 xbrl_data = deref_xbrl s xbrl_data"
    using assms(1) first(1) by (rule deref_xbrl_extends)
  have d2: "deref_xbrl s2 xbrl_data = deref_xbrl s xbrl_data"
    using assms(1) e2 by (rule deref_xbrl_extends)
  have again: "rows_at s2 r2 = rows_at s1 r1" using first(2) second(2) d1 by simp
  have kept: "rows_at s2 r1 = rows_at s1 r1"
  proof (cases r1)
    case (Inl e)
    then show ?thesis by (simp add: rows_at_def)
  next
    case (Inr rows)
    then have "\<forall>b \<in> set rows. b < length s1" by (rule first(3))
    with second(1) have "map (\<lambda>a. s2 ! a) rows = map (\<lambda>a. s1 ! a) rows"
      by (rule extends_map_nth)
    then show ?thesis using Inr by (simp add: rows_at_def)
  qed
  show ?thesis using first(1,2) e2 d1 d2 again kept by (simp add: extends_def)
qed

theorem extract_metrics_no_mutation_witness:
  "refs_in_store example_refs example_store
   \<and> extract_metrics_st example_env example_refs [py_str ''us-gaap_NetIncomeLoss_USD'']
        example_store
     = (Inr [2], example_store
          @ [extracted_row (py_str ''us-gaap_NetIncomeLoss_USD'') (py_str ''us-gaap'')
               (example_fact (py_str ''2024-02-03'')) (combine 738921 (mk_time 9 30))])
   \<and> take (length example_store)
        (example_store
          @ [extracted_row (py_str ''us-gaap_NetIncomeLoss_USD'') (py_str ''us-gaap'')
               (example_fact (py_str ''2024-02-03'')) (combine 738921 (mk_time 9 30))])
     = example_store
   \<and> rows_at (snd (extract_metrics_st example_env example_refs
                      [py_str ''us-gaap_NetIncomeLoss_USD'']
                      (example_store
                        @ [extracted_row (py_str ''us-gaap_NetIncomeLoss_USD'') (py_str ''us-gaap'')
                             (example_fact (py_str ''2024-02-03''))
                             (combine 738921 (mk_time 9 30))])))
        (Inr [3])
     = Inr [extracted_row (py_str ''us-gaap_NetIncomeLoss_USD'') (py_str ''us-gaap'')
              (example_fact (py_str ''2024-02-03'')) (combine 738921 (mk_time 9 30))]"
proof -
  let ?ms = "[py_str ''us-gaap_NetIncomeLoss_USD'']"
  let ?row = "extracted_row (py_str ''us-gaap_NetIncomeLoss_USD'') (py_str ''us-gaap'')
               (example_fact (py_str ''2024-02-03'')) (combine 738921 (mk_time 9 30))"
  let ?s1 = "example_store @ [?row]"
  let ?s2 = "example_store @ [?row, ?row]"
  have refs: "refs_in_store example_refs example_store" by code_simp
  have run1: "extract_metrics_st example_env example_refs ?ms example_store = (Inr [2], ?s1)"
    by code_simp
  have run2: "extract_metrics_st example_env example_refs ?ms ?s1 = (Inr [3], ?s2)"
    by code_simp
  have rows1: "rows_at ?s1 (Inr [2]) = Inr [?row]" by code_simp
  note same = extract_metrics_no_mutation [OF refs run1 run2]
  have "take (length example_store) ?s1 = example_store" using same by blast
  moreover have "rows_at ?s2 (Inr [3]) = Inr [?row]" using same rows1 by simp
  ultimately show ?thesis using refs run1 run2 by simp
qed

end
